theory Spec2Isabelle
  imports Main
begin

section \<open>Data model\<close>

text \<open>
  The rows of the tables the authentication system reads and writes
  (\<^verbatim>\<open>users\<close>, \<^verbatim>\<open>auth_tokens\<close>, \<^verbatim>\<open>two_factor_auth\<close>, \<^verbatim>\<open>sessions\<close>), with the
  columns \<^verbatim>\<open>AuthenticationSystem.ts\<close> uses. Timestamps are milliseconds since the epoch
  (what \<^verbatim>\<open>Date.now()\<close> returns). A table is the list of its rows in insertion order;
  \<^verbatim>\<open>findFirst\<close> returns the first row that satisfies the condition. Record fields carry a
  prefix, since several tables have a column \<^verbatim>\<open>id\<close>, \<^verbatim>\<open>userId\<close> or \<^verbatim>\<open>expiresAt\<close>.
  The columns \<^verbatim>\<open>userId\<close> are numbers: every row the class inserts carries the id of a user.

  A call of an operation is one step: it reads the clock once (\<open>now\<close>), and its reads
  and writes of the store are not interleaved with those of another call. The store raises
  only on a violated unique constraint. The random values a call draws are arguments.
\<close>

record user =
  u_id :: nat
  u_username :: string
  u_email :: string
  u_password :: string
  u_displayName :: string
  u_role :: string
  u_isActive :: bool

record authToken =
  at_id :: nat
  at_userId :: nat
  at_token :: string
  at_type :: string
  at_expiresAt :: int
  at_isUsed :: bool

record twoFA =
  tf_id :: nat
  tf_userId :: nat
  tf_secret :: string
  tf_backupCodes :: "string list"
  tf_isEnabled :: bool
  tf_lastUsed :: "int option"

record session_row =
  se_id :: string
  se_userId :: nat
  se_expiresAt :: int
  se_token :: string

text \<open>An entry of the in-memory map \<^verbatim>\<open>loginAttempts\<close>.\<close>

record attempts =
  count :: int
  lastAttempt :: int

text \<open>
  The state: the four tables, the counters of the two serial columns that the modelled
  operations insert into, and the rate limiter's map.
\<close>

record state =
  users :: "user list"
  authTokens :: "authToken list"
  twoFactorAuth :: "twoFA list"
  sessions :: "session_row list"
  nextUserId :: nat
  nextAuthTokenId :: nat
  loginAttempts :: "string \<rightharpoonup> attempts"

text \<open>\<^verbatim>\<open>AuthConfig\<close>, nested as in the source.\<close>

record tokenExpiration =
  emailVerification :: int
  passwordReset :: int
  twoFactor :: int

record rateLimits =
  rl_loginAttempts :: int
  timeWindow :: int

record security =
  requireEmailVerification :: bool
  enableTwoFactor :: bool
  sessionTimeout :: int

record authConfig =
  jwtSecret :: string
  jwtExpiration :: string
  bcryptRounds :: nat
  cfg_tokenExpiration :: tokenExpiration
  cfg_rateLimits :: rateLimits
  cfg_security :: security

definition defaultConfig :: authConfig where
  "defaultConfig =
     \<lparr> jwtSecret = ''neurocore-super-secret-key-2024'',
       jwtExpiration = ''24h'',
       bcryptRounds = 12,
       cfg_tokenExpiration =
         \<lparr> emailVerification = 24 * 60 * 60 * 1000,
           passwordReset = 60 * 60 * 1000,
           twoFactor = 5 * 60 * 1000 \<rparr>,
       cfg_rateLimits = \<lparr> rl_loginAttempts = 5, timeWindow = 15 * 60 * 1000 \<rparr>,
       cfg_security =
         \<lparr> requireEmailVerification = True,
           enableTwoFactor = False,
           sessionTimeout = 24 * 60 * 60 * 1000 \<rparr> \<rparr>"

text \<open>
  The libraries the class calls are parameters: \<^verbatim>\<open>bcrypt.hash\<close>, \<^verbatim>\<open>bcrypt.compare\<close>,
  \<^verbatim>\<open>jwt.sign\<close> (of the user, the secret and the lifetime) and \<^verbatim>\<open>speakeasy.totp.verify\<close>
  (of the secret, the code, the window and the time of the call).
\<close>

record libs =
  bcrypt_hash :: "string \<Rightarrow> nat \<Rightarrow> string"
  bcrypt_compare :: "string \<Rightarrow> string \<Rightarrow> bool"
  jwt_sign :: "user \<Rightarrow> string \<Rightarrow> string \<Rightarrow> string"
  totp_verify :: "string \<Rightarrow> string \<Rightarrow> nat \<Rightarrow> int \<Rightarrow> bool"

text \<open>
  An insert that violates a unique constraint of the schema (\<^verbatim>\<open>auth_tokens.token\<close>,
  the primary key \<^verbatim>\<open>sessions.id\<close>) throws; the public operations catch it.
\<close>

datatype db_error = UniqueViolation

section \<open>Token ledger\<close>

text \<open>
  \<^verbatim>\<open>generateAuthToken\<close>: \<open>rnd\<close> is the value of \<^verbatim>\<open>crypto.randomBytes(32).toString('hex')\<close>,
  \<open>now\<close> the value of \<^verbatim>\<open>Date.now()\<close>.
\<close>

definition generateAuthToken ::
  "int \<Rightarrow> string \<Rightarrow> nat \<Rightarrow> string \<Rightarrow> int \<Rightarrow> state \<Rightarrow> db_error + (string \<times> state)" where
  "generateAuthToken now rnd userId type expiresIn s =
     (let token = rnd; expiresAt = now + expiresIn in
      if token \<in> set (map at_token (authTokens s)) then Inl UniqueViolation
      else Inr (token,
        s\<lparr> authTokens := authTokens s @
             [\<lparr> at_id = nextAuthTokenId s, at_userId = userId, at_token = token,
                at_type = type, at_expiresAt = expiresAt, at_isUsed = False \<rparr>],
           nextAuthTokenId := Suc (nextAuthTokenId s) \<rparr>))"

definition verifyAuthToken :: "int \<Rightarrow> string \<Rightarrow> string \<Rightarrow> state \<Rightarrow> authToken option" where
  "verifyAuthToken now token type s =
     find (\<lambda>r. at_token r = token \<and> at_type r = type \<and> at_isUsed r = False \<and>
                at_expiresAt r > now) (authTokens s)"

definition markTokenAsUsed :: "string \<Rightarrow> state \<Rightarrow> state" where
  "markTokenAsUsed token s =
     s\<lparr> authTokens :=
          map (\<lambda>r. if at_token r = token then r\<lparr> at_isUsed := True \<rparr> else r) (authTokens s) \<rparr>"

section \<open>Rate limiter\<close>

text \<open>
  \<^verbatim>\<open>checkRateLimit\<close> returns whether the attempt is allowed and deletes an entry whose last
  failure is older than the window; \<^verbatim>\<open>recordFailedAttempt\<close> creates or increments the
  entry; \<open>now\<close> is the value of \<^verbatim>\<open>Date.now()\<close> in the call.
\<close>

definition checkRateLimit :: "authConfig \<Rightarrow> int \<Rightarrow> string \<Rightarrow> state \<Rightarrow> bool \<times> state" where
  "checkRateLimit cfg now identifier s =
     (case loginAttempts s identifier of
        None \<Rightarrow> (True, s)
      | Some a \<Rightarrow>
          if now - lastAttempt a > timeWindow (cfg_rateLimits cfg)
          then (True, s\<lparr> loginAttempts := (loginAttempts s)(identifier := None) \<rparr>)
          else (count a < rl_loginAttempts (cfg_rateLimits cfg), s))"

definition recordFailedAttempt :: "int \<Rightarrow> string \<Rightarrow> state \<Rightarrow> state" where
  "recordFailedAttempt now identifier s =
     (let a = (case loginAttempts s identifier of
                 None \<Rightarrow> \<lparr> count = 0, lastAttempt = now \<rparr>
               | Some a \<Rightarrow> a);
          a' = a\<lparr> count := count a + 1, lastAttempt := now \<rparr>
      in s\<lparr> loginAttempts := (loginAttempts s)(identifier \<mapsto> a') \<rparr>)"

definition clearRateLimit :: "string \<Rightarrow> state \<Rightarrow> state" where
  "clearRateLimit identifier s = s\<lparr> loginAttempts := (loginAttempts s)(identifier := None) \<rparr>"

section \<open>Sessions\<close>

text \<open>\<open>rnd\<close> is the random session id; \<^verbatim>\<open>sessions.id\<close> is the primary key.\<close>

definition createSession ::
  "authConfig \<Rightarrow> int \<Rightarrow> string \<Rightarrow> nat \<Rightarrow> string \<Rightarrow> state \<Rightarrow> db_error + state" where
  "createSession cfg now rnd userId token s =
     (let sessionId = rnd; expiresAt = now + sessionTimeout (cfg_security cfg) in
      if sessionId \<in> set (map se_id (sessions s)) then Inl UniqueViolation
      else Inr (s\<lparr> sessions := sessions s @
             [\<lparr> se_id = sessionId, se_userId = userId, se_expiresAt = expiresAt,
                se_token = token \<rparr>] \<rparr>))"

definition invalidateUserSessions :: "nat \<Rightarrow> state \<Rightarrow> state" where
  "invalidateUserSessions userId s =
     s\<lparr> sessions := filter (\<lambda>r. \<not> (se_userId r = userId)) (sessions s) \<rparr>"

section \<open>Validation\<close>

text \<open>
  The character classes of the regular expressions, on code units below 256:
  \<^verbatim>\<open>[A-Z]\<close>, \<^verbatim>\<open>[a-z]\<close>, \<^verbatim>\<open>\d\<close>, \<^verbatim>\<open>\W\<close> (anything but a letter, a digit or the underscore)
  and \<^verbatim>\<open>\s\<close> (tab, line feed, vertical tab, form feed, carriage return, space and the
  no-break space).
\<close>

definition isUpperCase :: "char \<Rightarrow> bool" where
  "isUpperCase c = (65 \<le> (of_char c :: nat) \<and> (of_char c :: nat) \<le> 90)"

definition isLowerCase :: "char \<Rightarrow> bool" where
  "isLowerCase c = (97 \<le> (of_char c :: nat) \<and> (of_char c :: nat) \<le> 122)"

definition isNumber :: "char \<Rightarrow> bool" where
  "isNumber c = (48 \<le> (of_char c :: nat) \<and> (of_char c :: nat) \<le> 57)"

definition isNonalpha :: "char \<Rightarrow> bool" where
  "isNonalpha c = (\<not> (isUpperCase c \<or> isLowerCase c \<or> isNumber c \<or> (of_char c :: nat) = 95))"

definition isSpace :: "char \<Rightarrow> bool" where
  "isSpace c = ((9 \<le> (of_char c :: nat) \<and> (of_char c :: nat) \<le> 13) \<or>
                (of_char c :: nat) = 32 \<or> (of_char c :: nat) = 160)"

definition validatePassword :: "string \<Rightarrow> bool" where
  "validatePassword password =
     (let minLength = 8;
          hasUpperCase = list_ex isUpperCase password;
          hasLowerCase = list_ex isLowerCase password;
          hasNumbers = list_ex isNumber password;
          hasNonalphas = list_ex isNonalpha password
      in length password \<ge> minLength \<and> hasUpperCase \<and> hasLowerCase \<and> hasNumbers \<and>
         hasNonalphas)"

text \<open>
  \<^verbatim>\<open>/^[^\s@]+@[^\s@]+\.[^\s@]+$/\<close>: no white space, exactly one \<^verbatim>\<open>@\<close>, a non-empty part
  before it, and after it a part with a dot that is neither its first nor its last
  character.
\<close>

definition validateEmail :: "string \<Rightarrow> bool" where
  "validateEmail email =
     (let local = takeWhile (\<lambda>c. c \<noteq> CHR ''@'') email;
          rest = dropWhile (\<lambda>c. c \<noteq> CHR ''@'') email
      in \<not> list_ex isSpace email \<and> local \<noteq> [] \<and> rest \<noteq> [] \<and>
         \<not> list_ex (\<lambda>c. c = CHR ''@'') (tl rest) \<and>
         list_ex (\<lambda>c. c = CHR ''.'') (butlast (tl (tl rest))))"

section \<open>Results\<close>

record registerResult =
  rr_success :: bool
  rr_user :: "user option"
  rr_token :: "string option"
  rr_verificationToken :: "string option"
  rr_message :: string

record loginResult =
  lr_success :: bool
  lr_user :: "user option"
  lr_token :: "string option"
  lr_requiresTwoFactor :: "bool option"
  lr_twoFactorToken :: "string option"
  lr_message :: string

text \<open>The result \<^verbatim>\<open>{ success, message }\<close> of the other operations.\<close>

record result =
  success :: bool
  message :: string

definition registerFailure :: "string \<Rightarrow> registerResult" where
  "registerFailure m =
     \<lparr> rr_success = False, rr_user = None, rr_token = None, rr_verificationToken = None,
       rr_message = m \<rparr>"

definition loginFailure :: "string \<Rightarrow> loginResult" where
  "loginFailure m =
     \<lparr> lr_success = False, lr_user = None, lr_token = None, lr_requiresTwoFactor = None,
       lr_twoFactorToken = None, lr_message = m \<rparr>"

definition passwordPolicyMessage :: string where
  "passwordPolicyMessage = ''Password must be at least 8 characters long and contain uppercase, lowercase, number, and special character''"

definition invalidCredentialsMessage :: string where
  "invalidCredentialsMessage = ''Invalid email or password''"

definition notActivatedMessage :: string where
  "notActivatedMessage = ''Account is not activated. Please check your email for verification instructions.''"

definition rateLimitedMessage :: string where
  "rateLimitedMessage = ''Too many login attempts. Please try again later.''"

definition loginErrorMessage :: string where
  "loginErrorMessage = ''An error occurred during login. Please try again.''"

definition invalidTwoFactorTokenMessage :: string where
  "invalidTwoFactorTokenMessage = ''Invalid or expired two-factor token''"

definition invalidTwoFactorCodeMessage :: string where
  "invalidTwoFactorCodeMessage = ''Invalid two-factor authentication code''"

definition resetRequestedMessage :: string where
  "resetRequestedMessage = ''If an account with this email exists, you will receive password reset instructions.''"

section \<open>Registration\<close>

record userData =
  ud_username :: string
  ud_email :: string
  ud_password :: string
  ud_displayName :: "string option"

text \<open>
  \<^verbatim>\<open>register\<close>. The inserted row gets the next value of the serial column and the
  schema's default role. The bearer token is signed before the verification token is
  generated and is part of the result in both configurations. An exception of the token
  insert is caught by the \<^verbatim>\<open>catch\<close> block after the user row was written.
\<close>

definition register ::
  "authConfig \<Rightarrow> libs \<Rightarrow> int \<Rightarrow> string \<Rightarrow> userData \<Rightarrow> state \<Rightarrow> registerResult \<times> state" where
  "register cfg L now rnd userData s =
     (if \<not> validatePassword (ud_password userData) then
        (registerFailure passwordPolicyMessage, s)
      else if \<not> validateEmail (ud_email userData) then
        (registerFailure ''Please provide a valid email address'', s)
      else if find (\<lambda>u. u_email u = ud_email userData) (users s) \<noteq> None then
        (registerFailure ''An account with this email already exists'', s)
      else if find (\<lambda>u. u_username u = ud_username userData) (users s) \<noteq> None then
        (registerFailure ''This username is already taken'', s)
      else
        let hashedPassword = bcrypt_hash L (ud_password userData) (bcryptRounds cfg);
            user =
              \<lparr> u_id = nextUserId s,
                u_username = ud_username userData,
                u_email = ud_email userData,
                u_password = hashedPassword,
                u_displayName =
                  (case ud_displayName userData of
                     None \<Rightarrow> ud_username userData
                   | Some d \<Rightarrow> if d = [] then ud_username userData else d),
                u_role = ''user'',
                u_isActive = (\<not> requireEmailVerification (cfg_security cfg)) \<rparr>;
            s1 = s\<lparr> users := users s @ [user], nextUserId := Suc (nextUserId s) \<rparr>;
            token = jwt_sign L user (jwtSecret cfg) (jwtExpiration cfg)
        in
          if requireEmailVerification (cfg_security cfg) then
            (case generateAuthToken now rnd (u_id user) ''email_verification''
                    (emailVerification (cfg_tokenExpiration cfg)) s1 of
               Inl e \<Rightarrow>
                 (registerFailure ''An error occurred during registration. Please try again.'', s1)
             | Inr (verificationToken, s2) \<Rightarrow>
                 (\<lparr> rr_success = True, rr_user = Some user, rr_token = Some token,
                    rr_verificationToken = Some verificationToken,
                    rr_message = ''Account created successfully. Please check your email to verify your account.'' \<rparr>,
                  s2))
          else
            (\<lparr> rr_success = True, rr_user = Some user, rr_token = Some token,
               rr_verificationToken = None,
               rr_message = ''Account created successfully. Welcome to NeuroCore AI!'' \<rparr>,
             s1))"

text \<open>
  The row \<^verbatim>\<open>register\<close> inserts, and the four checks it makes before inserting (password
  policy, email syntax, email and username not taken).
\<close>

definition newUser :: "authConfig \<Rightarrow> libs \<Rightarrow> userData \<Rightarrow> state \<Rightarrow> user" where
  "newUser cfg L userData s =
     \<lparr> u_id = nextUserId s,
       u_username = ud_username userData,
       u_email = ud_email userData,
       u_password = bcrypt_hash L (ud_password userData) (bcryptRounds cfg),
       u_displayName =
         (case ud_displayName userData of
            None \<Rightarrow> ud_username userData
          | Some d \<Rightarrow> if d = [] then ud_username userData else d),
       u_role = ''user'',
       u_isActive = (\<not> requireEmailVerification (cfg_security cfg)) \<rparr>"

definition registerChecks :: "userData \<Rightarrow> state \<Rightarrow> bool" where
  "registerChecks d s =
     (validatePassword (ud_password d) \<and> validateEmail (ud_email d) \<and>
      find (\<lambda>u. u_email u = ud_email d) (users s) = None \<and>
      find (\<lambda>u. u_username u = ud_username d) (users s) = None)"

section \<open>Login\<close>

record credentials =
  c_email :: string
  c_password :: string
  c_twoFactorCode :: "string option"
  c_twoFactorToken :: "string option"

text \<open>
  The end of \<^verbatim>\<open>login\<close>: sign the bearer token, create the session, clear the rate
  limiter.
\<close>

definition loginSession ::
  "authConfig \<Rightarrow> libs \<Rightarrow> int \<Rightarrow> string \<Rightarrow> credentials \<Rightarrow> user \<Rightarrow> state \<Rightarrow> loginResult \<times> state" where
  "loginSession cfg L now rndSession credentials user s =
     (let token = jwt_sign L user (jwtSecret cfg) (jwtExpiration cfg) in
      case createSession cfg now rndSession (u_id user) token s of
        Inl e \<Rightarrow> (loginFailure loginErrorMessage, s)
      | Inr s1 \<Rightarrow>
          (\<lparr> lr_success = True, lr_user = Some user, lr_token = Some token,
             lr_requiresTwoFactor = None, lr_twoFactorToken = None,
             lr_message = ''Login successful'' \<rparr>,
           clearRateLimit (c_email credentials) s1))"

text \<open>
  The two-factor step of \<^verbatim>\<open>login\<close>, for a user with an enabled two-factor row. A code
  or a challenge token that is absent or the empty string is missing (\<^verbatim>\<open>!x\<close>).
\<close>

definition loginTwoFactor ::
  "authConfig \<Rightarrow> libs \<Rightarrow> int \<Rightarrow> string \<Rightarrow> string \<Rightarrow> credentials \<Rightarrow> user \<Rightarrow> twoFA \<Rightarrow> state \<Rightarrow>
   loginResult \<times> state" where
  "loginTwoFactor cfg L now rndToken rndSession credentials user userTwoFactor s =
     (let code = (case c_twoFactorCode credentials of None \<Rightarrow> [] | Some c \<Rightarrow> c);
          challenge = (case c_twoFactorToken credentials of None \<Rightarrow> [] | Some t \<Rightarrow> t)
      in
        if code = [] \<or> challenge = [] then
          (case generateAuthToken now rndToken (u_id user) ''2fa''
                  (twoFactor (cfg_tokenExpiration cfg)) s of
             Inl e \<Rightarrow> (loginFailure loginErrorMessage, s)
           | Inr (twoFactorToken, s1) \<Rightarrow>
               (\<lparr> lr_success = False, lr_user = None, lr_token = None,
                  lr_requiresTwoFactor = Some True, lr_twoFactorToken = Some twoFactorToken,
                  lr_message = ''Two-factor authentication required'' \<rparr>,
                s1))
        else
          (case verifyAuthToken now challenge ''2fa'' s of
             None \<Rightarrow> (loginFailure invalidTwoFactorTokenMessage, s)
           | Some tokenValid \<Rightarrow>
               if at_userId tokenValid \<noteq> u_id user then
                 (loginFailure invalidTwoFactorTokenMessage, s)
               else if \<not> totp_verify L (tf_secret userTwoFactor) code 2 now then
                 (loginFailure invalidTwoFactorCodeMessage, s)
               else
                 let s1 = markTokenAsUsed challenge s;
                     s2 = s1\<lparr> twoFactorAuth :=
                            map (\<lambda>t. if tf_id t = tf_id userTwoFactor
                                      then t\<lparr> tf_lastUsed := Some now \<rparr> else t)
                              (twoFactorAuth s1) \<rparr>
                 in loginSession cfg L now rndSession credentials user s2))"

text \<open>
  \<^verbatim>\<open>login\<close>: \<open>rndToken\<close> and \<open>rndSession\<close> are the random values of a challenge token
  and of a session id, should the call generate them.
\<close>

definition login ::
  "authConfig \<Rightarrow> libs \<Rightarrow> int \<Rightarrow> string \<Rightarrow> string \<Rightarrow> credentials \<Rightarrow> state \<Rightarrow> loginResult \<times> state" where
  "login cfg L now rndToken rndSession credentials s =
     (case checkRateLimit cfg now (c_email credentials) s of
        (False, s0) \<Rightarrow> (loginFailure rateLimitedMessage, s0)
      | (True, s0) \<Rightarrow>
          (case find (\<lambda>u. u_email u = c_email credentials) (users s0) of
             None \<Rightarrow>
               (loginFailure invalidCredentialsMessage,
                recordFailedAttempt now (c_email credentials) s0)
           | Some user \<Rightarrow>
               if \<not> u_isActive user then (loginFailure notActivatedMessage, s0)
               else if \<not> bcrypt_compare L (c_password credentials) (u_password user) then
                 (loginFailure invalidCredentialsMessage,
                  recordFailedAttempt now (c_email credentials) s0)
               else
                 (case find (\<lambda>t. tf_userId t = u_id user \<and> tf_isEnabled t = True)
                         (twoFactorAuth s0) of
                    None \<Rightarrow> loginSession cfg L now rndSession credentials user s0
                  | Some userTwoFactor \<Rightarrow>
                      loginTwoFactor cfg L now rndToken rndSession credentials user
                        userTwoFactor s0)))"

section \<open>Email verification and password reset\<close>

definition verifyEmail :: "int \<Rightarrow> string \<Rightarrow> state \<Rightarrow> result \<times> state" where
  "verifyEmail now token s =
     (case verifyAuthToken now token ''email_verification'' s of
        None \<Rightarrow> (\<lparr> success = False, message = ''Invalid or expired verification token'' \<rparr>, s)
      | Some authToken \<Rightarrow>
          (let s1 = s\<lparr> users :=
                      map (\<lambda>u. if u_id u = at_userId authToken
                                then u\<lparr> u_isActive := True \<rparr> else u) (users s) \<rparr>;
               s2 = markTokenAsUsed token s1
           in (\<lparr> success = True,
                 message = ''Email verified successfully. Your account is now active.'' \<rparr>, s2)))"

text \<open>
  \<^verbatim>\<open>requestPasswordReset\<close>: the token is generated and written to the server's console;
  the returned object has the fields \<^verbatim>\<open>success\<close> and \<^verbatim>\<open>message\<close> only.
\<close>

definition requestPasswordReset ::
  "authConfig \<Rightarrow> int \<Rightarrow> string \<Rightarrow> string \<Rightarrow> state \<Rightarrow> result \<times> state" where
  "requestPasswordReset cfg now rnd email s =
     (case find (\<lambda>u. u_email u = email) (users s) of
        None \<Rightarrow> (\<lparr> success = True, message = resetRequestedMessage \<rparr>, s)
      | Some user \<Rightarrow>
          (case generateAuthToken now rnd (u_id user) ''password_reset''
                  (passwordReset (cfg_tokenExpiration cfg)) s of
             Inl e \<Rightarrow>
               (\<lparr> success = False,
                  message = ''An error occurred while processing your request'' \<rparr>, s)
           | Inr (resetToken, s1) \<Rightarrow>
               (\<lparr> success = True, message = resetRequestedMessage \<rparr>, s1)))"

text \<open>The update of the password column of the rows with the given user id.\<close>

definition updateUserPassword :: "nat \<Rightarrow> string \<Rightarrow> state \<Rightarrow> state" where
  "updateUserPassword userId hashedPassword s =
     s\<lparr> users := map (\<lambda>u. if u_id u = userId then u\<lparr> u_password := hashedPassword \<rparr> else u)
                   (users s) \<rparr>"

text \<open>
  The three writes of \<^verbatim>\<open>resetPassword\<close> after the token was verified, as the list of the
  states of the store after each of them, in the order of the awaited calls.
\<close>

definition resetPasswordWrites :: "string \<Rightarrow> authToken \<Rightarrow> string \<Rightarrow> state \<Rightarrow> state list" where
  "resetPasswordWrites token authToken hashedPassword s =
     (let s1 = updateUserPassword (at_userId authToken) hashedPassword s;
          s2 = markTokenAsUsed token s1;
          s3 = invalidateUserSessions (at_userId authToken) s2
      in [s1, s2, s3])"

definition resetPassword ::
  "authConfig \<Rightarrow> libs \<Rightarrow> int \<Rightarrow> string \<Rightarrow> string \<Rightarrow> state \<Rightarrow> result \<times> state" where
  "resetPassword cfg L now token newPassword s =
     (if \<not> validatePassword newPassword then
        (\<lparr> success = False, message = passwordPolicyMessage \<rparr>, s)
      else
        case verifyAuthToken now token ''password_reset'' s of
          None \<Rightarrow> (\<lparr> success = False, message = ''Invalid or expired reset token'' \<rparr>, s)
        | Some authToken \<Rightarrow>
            (let hashedPassword = bcrypt_hash L newPassword (bcryptRounds cfg) in
             (\<lparr> success = True,
                message = ''Password reset successfully. Please log in with your new password.'' \<rparr>,
              last (resetPasswordWrites token authToken hashedPassword s))))"

section \<open>Periodic cleanup\<close>

text \<open>
  One run of the hourly task of \<^verbatim>\<open>setupCleanupTasks\<close>: the first delete is on
  \<^verbatim>\<open>eq(authTokens.isUsed, true)\<close>, the second on \<^verbatim>\<open>gt(sessions.expiresAt, new Date())\<close>;
  the computed \<^verbatim>\<open>oneDayAgo\<close> is not used.
\<close>

definition cleanupTask :: "int \<Rightarrow> state \<Rightarrow> state" where
  "cleanupTask now s =
     (let oneDayAgo = now - 24 * 60 * 60 * 1000;
          s1 = s\<lparr> authTokens := filter (\<lambda>r. \<not> (at_isUsed r = True)) (authTokens s) \<rparr>
      in s1\<lparr> sessions := filter (\<lambda>r. \<not> (se_expiresAt r > now)) (sessions s1) \<rparr>)"

section \<open>Mail queue\<close>

text \<open>
  A row of \<^verbatim>\<open>email_queue\<close> with the columns the queue processor of \<^verbatim>\<open>EmailService.ts\<close>
  reads and writes, and the \<^verbatim>\<open>retry\<close> and \<^verbatim>\<open>queue\<close> parts of \<^verbatim>\<open>EmailConfig\<close>.
\<close>

record queuedEmail =
  q_id :: nat
  q_to :: string
  q_from :: string
  q_subject :: string
  q_htmlContent :: "string option"
  q_textContent :: "string option"
  q_status :: string
  q_attempts :: int
  q_lastAttempt :: "int option"
  q_error :: "string option"
  q_sentAt :: "int option"

record retryConfig =
  maxAttempts :: int
  delay :: int

record queueConfig =
  processInterval :: int
  batchSize :: nat

record emailConfig =
  cfg_retry :: retryConfig
  cfg_queue :: queueConfig

definition defaultEmailConfig :: emailConfig where
  "defaultEmailConfig =
     \<lparr> cfg_retry = \<lparr> maxAttempts = 3, delay = 5 * 60 * 1000 \<rparr>,
       cfg_queue = \<lparr> processInterval = 30 * 1000, batchSize = 10 \<rparr> \<rparr>"

text \<open>
  The state of the mail queue: the table, and the log of the calls of
  \<^verbatim>\<open>transporter.sendMail\<close>, each with the row as the processor had read it. The transport is
  a parameter: for a row it either succeeds (\<open>None\<close>) or throws an error with a message.
\<close>

record mailState =
  emailQueue :: "queuedEmail list"
  sendLog :: "queuedEmail list"

type_synonym transport = "queuedEmail \<Rightarrow> string option"

text \<open>
  \<^verbatim>\<open>processEmail\<close>: \<open>email\<close> is the row as read by the query; the updates are on the rows with
  its id. The failure branch stores \<^verbatim>\<open>email.attempts + 1\<close>.
\<close>

definition processEmail :: "int \<Rightarrow> transport \<Rightarrow> queuedEmail \<Rightarrow> mailState \<Rightarrow> mailState" where
  "processEmail now send email ms =
     (let q1 = map (\<lambda>r. if q_id r = q_id email then r\<lparr> q_status := ''sending'' \<rparr> else r)
                 (emailQueue ms);
          log1 = sendLog ms @ [email]
      in case send email of
           None \<Rightarrow>
             \<lparr> emailQueue =
                 map (\<lambda>r. if q_id r = q_id email
                           then r\<lparr> q_status := ''sent'', q_sentAt := Some now \<rparr> else r) q1,
               sendLog = log1 \<rparr>
         | Some err \<Rightarrow>
             \<lparr> emailQueue =
                 map (\<lambda>r. if q_id r = q_id email
                           then r\<lparr> q_status := ''failed'', q_attempts := q_attempts email + 1,
                                  q_lastAttempt := Some now, q_error := Some err \<rparr>
                           else r) q1,
               sendLog = log1 \<rparr>)"

text \<open>
  The test of the retry loop on a row read with status \<^verbatim>\<open>failed\<close>; a row without
  \<^verbatim>\<open>lastAttempt\<close> counts as infinitely old.
\<close>

definition retryDue :: "emailConfig \<Rightarrow> int \<Rightarrow> queuedEmail \<Rightarrow> bool" where
  "retryDue cfg now email =
     (q_attempts email < maxAttempts (cfg_retry cfg) \<and>
      (case q_lastAttempt email of
         None \<Rightarrow> True
       | Some t \<Rightarrow> now - t \<ge> delay (cfg_retry cfg)))"

definition retryEmail :: "emailConfig \<Rightarrow> int \<Rightarrow> transport \<Rightarrow> queuedEmail \<Rightarrow> mailState \<Rightarrow> mailState" where
  "retryEmail cfg now send email ms =
     (if retryDue cfg now email then processEmail now send email ms else ms)"

text \<open>
  One run of \<^verbatim>\<open>processEmailQueue\<close> at time \<open>now\<close>: the pending rows, at most a batch, are
  processed; then the failed rows are queried, at most a batch, and those due are
  processed again.
\<close>

definition processEmailQueue :: "emailConfig \<Rightarrow> int \<Rightarrow> transport \<Rightarrow> mailState \<Rightarrow> mailState" where
  "processEmailQueue cfg now send ms =
     (let pendingEmails =
            take (batchSize (cfg_queue cfg))
              (filter (\<lambda>r. q_status r = ''pending'') (emailQueue ms));
          ms1 = fold (processEmail now send) pendingEmails ms;
          retryEmails =
            take (batchSize (cfg_queue cfg))
              (filter (\<lambda>r. q_status r = ''failed'') (emailQueue ms1))
      in fold (retryEmail cfg now send) retryEmails ms1)"

text \<open>
  The processor over time: a run for each tick of the interval timer, each with its time
  and the behaviour of the transport during the run.
\<close>

fun processorRuns :: "emailConfig \<Rightarrow> (int \<times> transport) list \<Rightarrow> mailState \<Rightarrow> mailState" where
  "processorRuns cfg [] ms = ms"
| "processorRuns cfg ((now, send) # ticks) ms =
     processorRuns cfg ticks (processEmailQueue cfg now send ms)"

text \<open>
  The rows a run reads in its two passes: the pending batch, and the failed rows of the
  second query that pass the retry test.
\<close>

definition pendingBatch :: "emailConfig \<Rightarrow> mailState \<Rightarrow> queuedEmail list" where
  "pendingBatch cfg ms =
     take (batchSize (cfg_queue cfg)) (filter (\<lambda>r. q_status r = ''pending'') (emailQueue ms))"

definition retryBatch :: "emailConfig \<Rightarrow> int \<Rightarrow> mailState \<Rightarrow> queuedEmail list" where
  "retryBatch cfg now ms =
     filter (retryDue cfg now)
       (take (batchSize (cfg_queue cfg)) (filter (\<lambda>r. q_status r = ''failed'') (emailQueue ms)))"

section \<open>Example data\<close>

text \<open>The concrete states and inputs the theorems below are evaluated at.\<close>

definition exampleToken :: authToken where
  "exampleToken =
     \<lparr> at_id = 1, at_userId = 7, at_token = ''c0ffee'', at_type = ''2fa'',
       at_expiresAt = 1000, at_isUsed = False \<rparr>"

definition emptyState :: state where
  "emptyState =
     \<lparr> users = [], authTokens = [], twoFactorAuth = [], sessions = [],
       nextUserId = 1, nextAuthTokenId = 1, loginAttempts = Map.empty \<rparr>"

definition ledgerState :: state where
  "ledgerState = emptyState\<lparr> authTokens := [exampleToken], nextAuthTokenId := 2 \<rparr>"

definition staleState :: state where
  "staleState = emptyState\<lparr> loginAttempts := [''a@x.com'' \<mapsto> \<lparr> count = 3, lastAttempt = 0 \<rparr>] \<rparr>"

definition exampleLibs :: libs where
  "exampleLibs =
     \<lparr> bcrypt_hash = (\<lambda>p rounds. ''hash:'' @ p),
       bcrypt_compare = (\<lambda>p h. h = ''hash:'' @ p),
       jwt_sign = (\<lambda>u secret lifetime. ''jwt:'' @ u_username u),
       totp_verify = (\<lambda>secret code window now. code = ''123456'') \<rparr>"

definition alice :: user where
  "alice =
     \<lparr> u_id = 1, u_username = ''alice'', u_email = ''a@x.com'', u_password = ''hash:Str0ng!Pass'',
       u_displayName = ''alice'', u_role = ''user'', u_isActive = False \<rparr>"

definition bob :: user where
  "bob =
     \<lparr> u_id = 2, u_username = ''bob'', u_email = ''b@x.com'', u_password = ''hash:S3cret?Word'',
       u_displayName = ''bob'', u_role = ''user'', u_isActive = True \<rparr>"

definition bobTwoFactor :: twoFA where
  "bobTwoFactor =
     \<lparr> tf_id = 1, tf_userId = 2, tf_secret = ''JBSWY3DPEHPK3PXP'', tf_backupCodes = [],
       tf_isEnabled = True, tf_lastUsed = None \<rparr>"

definition usersState :: state where
  "usersState =
     emptyState\<lparr> users := [alice, bob], twoFactorAuth := [bobTwoFactor], nextUserId := 3 \<rparr>"

definition challengeState :: state where
  "challengeState = usersState\<lparr> authTokens := [exampleToken], nextAuthTokenId := 2 \<rparr>"

definition bobLogin :: credentials where
  "bobLogin =
     \<lparr> c_email = ''b@x.com'', c_password = ''S3cret?Word'', c_twoFactorCode = Some ''000000'',
       c_twoFactorToken = Some ''c0ffee'' \<rparr>"

definition carolData :: userData where
  "carolData =
     \<lparr> ud_username = ''carol'', ud_email = ''c@x.com'', ud_password = ''Str0ng!Pass'',
       ud_displayName = None \<rparr>"

definition resetToken :: authToken where
  "resetToken =
     \<lparr> at_id = 1, at_userId = 2, at_token = ''dead01'', at_type = ''password_reset'',
       at_expiresAt = 5000, at_isUsed = False \<rparr>"

definition bobSession :: session_row where
  "bobSession = \<lparr> se_id = ''s1'', se_userId = 2, se_expiresAt = 9000, se_token = ''jwt:bob'' \<rparr>"

definition aliceSession :: session_row where
  "aliceSession = \<lparr> se_id = ''s2'', se_userId = 1, se_expiresAt = 500, se_token = ''jwt:alice'' \<rparr>"

definition resetState :: state where
  "resetState =
     usersState\<lparr> authTokens := [resetToken], sessions := [bobSession, aliceSession],
       nextAuthTokenId := 2 \<rparr>"

definition retryRow :: queuedEmail where
  "retryRow =
     \<lparr> q_id = 1, q_to = ''a@x.com'', q_from = ''NeuroCore AI <noreply@neurocore.ai>'',
       q_subject = ''Verify Your NeuroCore AI Account'', q_htmlContent = None,
       q_textContent = None, q_status = ''failed'', q_attempts = 1, q_lastAttempt = Some 0,
       q_error = Some ''boom'', q_sentAt = None \<rparr>"

definition exhaustedRow :: queuedEmail where
  "exhaustedRow = retryRow\<lparr> q_id := 2, q_attempts := 3 \<rparr>"

definition retryState :: mailState where
  "retryState = \<lparr> emailQueue = [retryRow, exhaustedRow], sendLog = [] \<rparr>"

definition failingTransport :: transport where
  "failingTransport = (\<lambda>e. Some ''boom'')"

section \<open>Properties of the token ledger\<close>

lemma find_Some_props: "find P xs = Some x \<Longrightarrow> x \<in> set xs \<and> P x"
  by (induction xs) (auto split: if_splits)

lemma find_None_iff_set: "find P xs = None \<longleftrightarrow> (\<forall>x \<in> set xs. \<not> P x)"
  by (induction xs) auto

lemma find_unique:
  "distinct (map f xs) \<Longrightarrow> x \<in> set xs \<Longrightarrow> P x \<Longrightarrow> (\<And>y. P y \<Longrightarrow> f y = f x) \<Longrightarrow>
   find P xs = Some x"
proof (induction xs)
  case Nil
  then show ?case by simp
next
  case (Cons a xs)
  show ?case
  proof (cases "P a")
    case True
    with Cons.prems(4) have fa: "f a = f x" by blast
    from Cons.prems(1) have "f a \<notin> f ` set xs" by simp
    with fa have "x \<notin> set xs" by force
    with Cons.prems(2) have "a = x" by simp
    with True show ?thesis by simp
  next
    case False
    with Cons.prems(3) have "x \<noteq> a" by blast
    with Cons.prems(2) have "x \<in> set xs" by simp
    moreover from Cons.prems(1) have "distinct (map f xs)" by simp
    ultimately have "find P xs = Some x"
      using Cons.IH Cons.prems(3,4) by blast
    with False show ?thesis by simp
  qed
qed

lemma generateAuthToken_distinct:
  "distinct (map at_token (authTokens s)) \<Longrightarrow>
   generateAuthToken now rnd uid ty ttl s = Inr (tok, s') \<Longrightarrow>
   distinct (map at_token (authTokens s'))"
  by (auto simp: generateAuthToken_def Let_def split: if_splits)

lemma markTokenAsUsed_tokens:
  "map at_token (authTokens (markTokenAsUsed tok s)) = map at_token (authTokens s)"
  by (simp add: markTokenAsUsed_def comp_def)

lemma verifyAuthToken_Some:
  assumes "verifyAuthToken now tok kind s = Some r"
  shows "r \<in> set (authTokens s)" and "at_token r = tok" and "at_type r = kind"
    and "\<not> at_isUsed r" and "now < at_expiresAt r"
  using find_Some_props [OF assms [unfolded verifyAuthToken_def]] by simp_all

lemma verifyAuthToken_exists:
  assumes "r \<in> set (authTokens s)" and "at_token r = tok" and "at_type r = kind"
    and "\<not> at_isUsed r" and "now < at_expiresAt r"
  shows "\<exists>r'. verifyAuthToken now tok kind s = Some r'"
proof -
  have "verifyAuthToken now tok kind s \<noteq> None"
    unfolding verifyAuthToken_def find_None_iff_set using assms by blast
  then show ?thesis by blast
qed

lemma verifyAuthToken_the_row:
  assumes "distinct (map at_token (authTokens s))"
    and "r \<in> set (authTokens s)" and "at_token r = tok" and "at_type r = kind"
    and "\<not> at_isUsed r" and "now < at_expiresAt r"
  shows "verifyAuthToken now tok kind s = Some r"
  unfolding verifyAuthToken_def
  by (rule find_unique [where f = at_token]) (use assms in simp_all)

lemma find_after_mark:
  "find (\<lambda>r. at_token r = tok \<and> at_type r = kind \<and> at_isUsed r = False \<and> at_expiresAt r > now)
     (map (\<lambda>r. if at_token r = tok then r\<lparr> at_isUsed := True \<rparr> else r) xs) = None"
  by (induction xs) auto

lemma verifyAuthToken_after_markTokenAsUsed:
  "verifyAuthToken now tok kind (markTokenAsUsed tok s) = None"
  using find_after_mark [of tok kind now "authTokens s"]
  by (simp add: verifyAuthToken_def markTokenAsUsed_def)

lemma verifyAuthToken_expired:
  assumes "\<forall>r \<in> set (authTokens s). at_token r = tok \<longrightarrow> at_expiresAt r \<le> now"
  shows "verifyAuthToken now tok kind s = None"
  unfolding verifyAuthToken_def find_None_iff_set using assms by fastforce

text \<open>
  C1: \<^verbatim>\<open>verifyAuthToken\<close> returns a row only if the row is in the ledger, carries the
  token value and the kind asked for, is unused and expires strictly after the current
  time; it returns a row whenever the ledger holds such a row, and, token values being
  unique in the ledger, exactly that row. After \<^verbatim>\<open>markTokenAsUsed\<close> on a token value,
  verifying this value returns nothing, at any time and for any kind. Once the current time
  has reached the expiry of every row with the token value, verifying returns nothing,
  used or not.
\<close>

theorem verifyAuthToken_iff_valid:
  "(verifyAuthToken now tok kind s = Some r \<longrightarrow>
      r \<in> set (authTokens s) \<and> at_token r = tok \<and> at_type r = kind \<and>
      \<not> at_isUsed r \<and> now < at_expiresAt r) \<and>
   ((\<exists>r' \<in> set (authTokens s). at_token r' = tok \<and> at_type r' = kind \<and>
       \<not> at_isUsed r' \<and> now < at_expiresAt r') \<longrightarrow>
      (\<exists>r'. verifyAuthToken now tok kind s = Some r')) \<and>
   (distinct (map at_token (authTokens s)) \<and> r \<in> set (authTokens s) \<and> at_token r = tok \<and>
      at_type r = kind \<and> \<not> at_isUsed r \<and> now < at_expiresAt r \<longrightarrow>
      verifyAuthToken now tok kind s = Some r) \<and>
   verifyAuthToken now' tok kind' (markTokenAsUsed tok s) = None \<and>
   ((\<forall>r' \<in> set (authTokens s). at_token r' = tok \<longrightarrow> at_expiresAt r' \<le> now) \<longrightarrow>
      verifyAuthToken now tok kind s = None)"
proof -
  have A: "verifyAuthToken now tok kind s = Some r \<longrightarrow>
      r \<in> set (authTokens s) \<and> at_token r = tok \<and> at_type r = kind \<and>
      \<not> at_isUsed r \<and> now < at_expiresAt r"
    using verifyAuthToken_Some [of now tok kind s r] by blast
  have B: "(\<exists>r' \<in> set (authTokens s). at_token r' = tok \<and> at_type r' = kind \<and>
       \<not> at_isUsed r' \<and> now < at_expiresAt r') \<longrightarrow>
      (\<exists>r'. verifyAuthToken now tok kind s = Some r')"
    using verifyAuthToken_exists [of _ s tok kind now] by blast
  have C: "distinct (map at_token (authTokens s)) \<and> r \<in> set (authTokens s) \<and>
      at_token r = tok \<and> at_type r = kind \<and> \<not> at_isUsed r \<and> now < at_expiresAt r \<longrightarrow>
      verifyAuthToken now tok kind s = Some r"
    using verifyAuthToken_the_row [of s r tok kind now] by blast
  have D: "verifyAuthToken now' tok kind' (markTokenAsUsed tok s) = None"
    by (rule verifyAuthToken_after_markTokenAsUsed)
  have E: "(\<forall>r' \<in> set (authTokens s). at_token r' = tok \<longrightarrow> at_expiresAt r' \<le> now) \<longrightarrow>
      verifyAuthToken now tok kind s = None"
    using verifyAuthToken_expired [of s tok now kind] by blast
  from A B C D E show ?thesis by (intro conjI)
qed

theorem verifyAuthToken_iff_valid_witness:
  "verifyAuthToken 999 ''c0ffee'' ''2fa'' ledgerState = Some exampleToken \<and>
   verifyAuthToken 999 ''c0ffee'' ''2fa'' (markTokenAsUsed ''c0ffee'' ledgerState) = None \<and>
   verifyAuthToken 1000 ''c0ffee'' ''2fa'' ledgerState = None \<and>
   verifyAuthToken 999 ''c0ffee'' ''password_reset'' ledgerState = None"
  using verifyAuthToken_iff_valid
    [of 999 "''c0ffee''" "''2fa''" ledgerState exampleToken 999 "''2fa''"]
    verifyAuthToken_iff_valid
    [of 1000 "''c0ffee''" "''2fa''" ledgerState exampleToken 1000 "''2fa''"]
  by (simp add: verifyAuthToken_def ledgerState_def emptyState_def exampleToken_def)

section \<open>Properties of the rate limiter\<close>

lemma recordFailedAttempt_entry:
  "loginAttempts (recordFailedAttempt now i s) i =
     Some \<lparr> count = (case loginAttempts s i of None \<Rightarrow> 1 | Some a \<Rightarrow> count a + 1),
            lastAttempt = now \<rparr>"
  by (simp add: recordFailedAttempt_def Let_def split: option.splits)

lemma recordFailedAttempt_other:
  "j \<noteq> i \<Longrightarrow> loginAttempts (recordFailedAttempt now i s) j = loginAttempts s j"
  by (simp add: recordFailedAttempt_def Let_def)

lemma recordFailedAttempt_tables:
  "users (recordFailedAttempt now i s) = users s"
  "authTokens (recordFailedAttempt now i s) = authTokens s"
  "twoFactorAuth (recordFailedAttempt now i s) = twoFactorAuth s"
  "sessions (recordFailedAttempt now i s) = sessions s"
  by (simp_all add: recordFailedAttempt_def Let_def)

lemma checkRateLimit_stale:
  "loginAttempts s i = Some a \<Longrightarrow> now - lastAttempt a > timeWindow (cfg_rateLimits cfg) \<Longrightarrow>
   checkRateLimit cfg now i s = (True, s\<lparr> loginAttempts := (loginAttempts s)(i := None) \<rparr>)"
  by (simp add: checkRateLimit_def)

text \<open>
  C5 (as the code has it): \<^verbatim>\<open>recordFailedAttempt\<close> stores the previous count plus one (one
  when the identifier has no entry) and the current time as the anchor, whatever the age of
  the previous failure, and touches no other identifier. The reset is in
  \<^verbatim>\<open>checkRateLimit\<close>: it deletes an entry whose last failure is more than the window width
  ago, so that a failure recorded after such a check is stored with count one.
\<close>

theorem recordFailedAttempt_always_increments:
  "loginAttempts (recordFailedAttempt now i s) i =
     Some \<lparr> count = (case loginAttempts s i of None \<Rightarrow> 1 | Some a \<Rightarrow> count a + 1),
            lastAttempt = now \<rparr> \<and>
   (\<forall>j. j \<noteq> i \<longrightarrow> loginAttempts (recordFailedAttempt now i s) j = loginAttempts s j) \<and>
   (loginAttempts s i = Some a \<and> now - lastAttempt a > timeWindow (cfg_rateLimits cfg) \<longrightarrow>
      fst (checkRateLimit cfg now i s) = True \<and>
      loginAttempts (snd (checkRateLimit cfg now i s)) i = None \<and>
      loginAttempts (recordFailedAttempt now' i (snd (checkRateLimit cfg now i s))) i =
        Some \<lparr> count = 1, lastAttempt = now' \<rparr>)"
proof -
  have A: "loginAttempts s i = Some a \<and> now - lastAttempt a > timeWindow (cfg_rateLimits cfg) \<longrightarrow>
      fst (checkRateLimit cfg now i s) = True \<and>
      loginAttempts (snd (checkRateLimit cfg now i s)) i = None \<and>
      loginAttempts (recordFailedAttempt now' i (snd (checkRateLimit cfg now i s))) i =
        Some \<lparr> count = 1, lastAttempt = now' \<rparr>"
    by (simp add: checkRateLimit_stale recordFailedAttempt_entry)
  show ?thesis
    using A recordFailedAttempt_entry [of now i s] recordFailedAttempt_other [of _ i now s]
    by blast
qed

theorem recordFailedAttempt_always_increments_witness:
  "loginAttempts (recordFailedAttempt 1000000000 ''a@x.com'' staleState) ''a@x.com'' =
     Some \<lparr> count = 4, lastAttempt = 1000000000 \<rparr> \<and>
   loginAttempts (recordFailedAttempt 1000000000 ''a@x.com'' staleState) ''b@x.com'' = None \<and>
   loginAttempts (recordFailedAttempt 1000000001 ''a@x.com''
       (snd (checkRateLimit defaultConfig 1000000000 ''a@x.com'' staleState))) ''a@x.com'' =
     Some \<lparr> count = 1, lastAttempt = 1000000001 \<rparr>"
  using recordFailedAttempt_always_increments
    [of 1000000000 "''a@x.com''" staleState "\<lparr> count = 3, lastAttempt = 0 \<rparr>" defaultConfig
      1000000001]
  by (simp add: staleState_def emptyState_def defaultConfig_def)

text \<open>
  The entry of \<^verbatim>\<open>a@x.com\<close> has count 3 and its last failure is older than the window of 15
  minutes; recording a failure stores count 4, not 1.
\<close>

theorem recordFailedAttempt_reset_counterexample:
  "loginAttempts staleState ''a@x.com'' = Some \<lparr> count = 3, lastAttempt = 0 \<rparr> \<and>
   1000000000 - 0 > timeWindow (cfg_rateLimits defaultConfig) \<and>
   loginAttempts (recordFailedAttempt 1000000000 ''a@x.com'' staleState) ''a@x.com'' =
     Some \<lparr> count = 4, lastAttempt = 1000000000 \<rparr>"
  by (simp add: staleState_def emptyState_def defaultConfig_def recordFailedAttempt_def)

section \<open>Properties of login\<close>

lemma checkRateLimit_cases:
  "checkRateLimit cfg now i s = (ok, s0) \<Longrightarrow>
   users s0 = users s \<and> authTokens s0 = authTokens s \<and> twoFactorAuth s0 = twoFactorAuth s \<and>
   sessions s0 = sessions s"
  by (auto simp: checkRateLimit_def split: option.splits if_splits)

lemma login_rate_limited:
  "checkRateLimit cfg now (c_email c) s = (False, s0) \<Longrightarrow>
   login cfg L now rt rs c s = (loginFailure rateLimitedMessage, s0)"
  by (simp add: login_def)

lemma login_unknown_user:
  "checkRateLimit cfg now (c_email c) s = (True, s0) \<Longrightarrow>
   find (\<lambda>u. u_email u = c_email c) (users s0) = None \<Longrightarrow>
   login cfg L now rt rs c s =
     (loginFailure invalidCredentialsMessage, recordFailedAttempt now (c_email c) s0)"
  by (simp add: login_def)

lemma login_inactive:
  "checkRateLimit cfg now (c_email c) s = (True, s0) \<Longrightarrow>
   find (\<lambda>u. u_email u = c_email c) (users s0) = Some u \<Longrightarrow> \<not> u_isActive u \<Longrightarrow>
   login cfg L now rt rs c s = (loginFailure notActivatedMessage, s0)"
  by (simp add: login_def)

lemma login_wrong_password:
  "checkRateLimit cfg now (c_email c) s = (True, s0) \<Longrightarrow>
   find (\<lambda>u. u_email u = c_email c) (users s0) = Some u \<Longrightarrow> u_isActive u \<Longrightarrow>
   \<not> bcrypt_compare L (c_password c) (u_password u) \<Longrightarrow>
   login cfg L now rt rs c s =
     (loginFailure invalidCredentialsMessage, recordFailedAttempt now (c_email c) s0)"
  by (simp add: login_def)

lemma login_two_factor_step:
  "checkRateLimit cfg now (c_email c) s = (True, s0) \<Longrightarrow>
   find (\<lambda>u. u_email u = c_email c) (users s0) = Some u \<Longrightarrow> u_isActive u \<Longrightarrow>
   bcrypt_compare L (c_password c) (u_password u) \<Longrightarrow>
   find (\<lambda>t. tf_userId t = u_id u \<and> tf_isEnabled t = True) (twoFactorAuth s0) = Some tf \<Longrightarrow>
   login cfg L now rt rs c s = loginTwoFactor cfg L now rt rs c u tf s0"
  by (simp add: login_def)

text \<open>
  C3 (as the code has it): \<^verbatim>\<open>login\<close> checks the rate limiter first; then it looks the
  user up, and an absent user records a failure and gets the generic message; then it checks
  that the account is active, before the password is compared, so an inactive account gets
  the account-not-activated failure and no failure is recorded, whatever the password; only
  then it compares the password, and a mismatch records a failure and gets the generic
  message.
\<close>

theorem login_check_order:
  "(checkRateLimit cfg now (c_email c) s = (False, s0) \<longrightarrow>
      login cfg L now rt rs c s = (loginFailure rateLimitedMessage, s0)) \<and>
   (checkRateLimit cfg now (c_email c) s = (True, s0) \<and>
    find (\<lambda>u. u_email u = c_email c) (users s0) = None \<longrightarrow>
      fst (login cfg L now rt rs c s) = loginFailure invalidCredentialsMessage \<and>
      loginAttempts (snd (login cfg L now rt rs c s)) (c_email c) =
        Some \<lparr> count = (case loginAttempts s0 (c_email c) of None \<Rightarrow> 1 | Some a \<Rightarrow> count a + 1),
               lastAttempt = now \<rparr>) \<and>
   (checkRateLimit cfg now (c_email c) s = (True, s0) \<and>
    find (\<lambda>u. u_email u = c_email c) (users s0) = Some u \<and> \<not> u_isActive u \<longrightarrow>
      login cfg L now rt rs c s = (loginFailure notActivatedMessage, s0)) \<and>
   (checkRateLimit cfg now (c_email c) s = (True, s0) \<and>
    find (\<lambda>u. u_email u = c_email c) (users s0) = Some u \<and> u_isActive u \<and>
    \<not> bcrypt_compare L (c_password c) (u_password u) \<longrightarrow>
      fst (login cfg L now rt rs c s) = loginFailure invalidCredentialsMessage \<and>
      loginAttempts (snd (login cfg L now rt rs c s)) (c_email c) =
        Some \<lparr> count = (case loginAttempts s0 (c_email c) of None \<Rightarrow> 1 | Some a \<Rightarrow> count a + 1),
               lastAttempt = now \<rparr>)"
proof -
  have A: "checkRateLimit cfg now (c_email c) s = (False, s0) \<longrightarrow>
      login cfg L now rt rs c s = (loginFailure rateLimitedMessage, s0)"
    by (simp add: login_rate_limited)
  have B: "checkRateLimit cfg now (c_email c) s = (True, s0) \<and>
    find (\<lambda>u. u_email u = c_email c) (users s0) = None \<longrightarrow>
      fst (login cfg L now rt rs c s) = loginFailure invalidCredentialsMessage \<and>
      loginAttempts (snd (login cfg L now rt rs c s)) (c_email c) =
        Some \<lparr> count = (case loginAttempts s0 (c_email c) of None \<Rightarrow> 1 | Some a \<Rightarrow> count a + 1),
               lastAttempt = now \<rparr>"
    by (simp add: login_unknown_user recordFailedAttempt_entry)
  have C: "checkRateLimit cfg now (c_email c) s = (True, s0) \<and>
    find (\<lambda>u. u_email u = c_email c) (users s0) = Some u \<and> \<not> u_isActive u \<longrightarrow>
      login cfg L now rt rs c s = (loginFailure notActivatedMessage, s0)"
    by (simp add: login_inactive)
  have D: "checkRateLimit cfg now (c_email c) s = (True, s0) \<and>
    find (\<lambda>u. u_email u = c_email c) (users s0) = Some u \<and> u_isActive u \<and>
    \<not> bcrypt_compare L (c_password c) (u_password u) \<longrightarrow>
      fst (login cfg L now rt rs c s) = loginFailure invalidCredentialsMessage \<and>
      loginAttempts (snd (login cfg L now rt rs c s)) (c_email c) =
        Some \<lparr> count = (case loginAttempts s0 (c_email c) of None \<Rightarrow> 1 | Some a \<Rightarrow> count a + 1),
               lastAttempt = now \<rparr>"
    by (simp add: login_wrong_password recordFailedAttempt_entry)
  from A B C D show ?thesis by (intro conjI)
qed

lemma usersState_simps:
  "checkRateLimit cfg now i usersState = (True, usersState)"
  "find (\<lambda>u. u_email u = ''a@x.com'') (users usersState) = Some alice"
  "find (\<lambda>u. u_email u = ''b@x.com'') (users usersState) = Some bob"
  "find (\<lambda>t. tf_userId t = u_id bob \<and> tf_isEnabled t = True) (twoFactorAuth usersState) =
     Some bobTwoFactor"
  "loginAttempts usersState = Map.empty"
  "authTokens usersState = []"
  by (simp_all add: checkRateLimit_def usersState_def emptyState_def alice_def bob_def
      bobTwoFactor_def)

theorem login_check_order_witness:
  "login defaultConfig exampleLibs 1000 ''r1'' ''r2''
     \<lparr> c_email = ''a@x.com'', c_password = ''wrong'', c_twoFactorCode = None,
       c_twoFactorToken = None \<rparr> usersState = (loginFailure notActivatedMessage, usersState) \<and>
   fst (login defaultConfig exampleLibs 1000 ''r1'' ''r2''
     \<lparr> c_email = ''b@x.com'', c_password = ''wrong'', c_twoFactorCode = None,
       c_twoFactorToken = None \<rparr> usersState) = loginFailure invalidCredentialsMessage \<and>
   loginAttempts (snd (login defaultConfig exampleLibs 1000 ''r1'' ''r2''
     \<lparr> c_email = ''b@x.com'', c_password = ''wrong'', c_twoFactorCode = None,
       c_twoFactorToken = None \<rparr> usersState)) ''b@x.com'' = Some \<lparr> count = 1, lastAttempt = 1000 \<rparr>"
proof -
  let ?a = "\<lparr> c_email = ''a@x.com'', c_password = ''wrong'', c_twoFactorCode = None,
       c_twoFactorToken = None \<rparr>"
  let ?b = "\<lparr> c_email = ''b@x.com'', c_password = ''wrong'', c_twoFactorCode = None,
       c_twoFactorToken = None \<rparr>"
  have a: "checkRateLimit defaultConfig 1000 (c_email ?a) usersState = (True, usersState) \<and>
      find (\<lambda>u. u_email u = c_email ?a) (users usersState) = Some alice \<and> \<not> u_isActive alice"
    by (simp add: usersState_simps) (simp add: alice_def)
  have b: "checkRateLimit defaultConfig 1000 (c_email ?b) usersState = (True, usersState) \<and>
      find (\<lambda>u. u_email u = c_email ?b) (users usersState) = Some bob \<and> u_isActive bob \<and>
      \<not> bcrypt_compare exampleLibs (c_password ?b) (u_password bob)"
    by (simp add: usersState_simps) (simp add: bob_def exampleLibs_def)
  from a login_check_order [of defaultConfig 1000 ?a usersState usersState exampleLibs
      "''r1''" "''r2''" alice]
  have A: "login defaultConfig exampleLibs 1000 ''r1'' ''r2'' ?a usersState =
      (loginFailure notActivatedMessage, usersState)"
    by blast
  from b login_check_order [of defaultConfig 1000 ?b usersState usersState exampleLibs
      "''r1''" "''r2''" bob]
  have B: "fst (login defaultConfig exampleLibs 1000 ''r1'' ''r2'' ?b usersState) =
        loginFailure invalidCredentialsMessage \<and>
      loginAttempts (snd (login defaultConfig exampleLibs 1000 ''r1'' ''r2'' ?b usersState))
        (c_email ?b) =
        Some \<lparr> count = (case loginAttempts usersState (c_email ?b) of
                          None \<Rightarrow> 1 | Some a \<Rightarrow> count a + 1), lastAttempt = 1000 \<rparr>"
    by blast
  from A B show ?thesis by (simp add: usersState_simps)
qed

text \<open>
  The account of \<^verbatim>\<open>a@x.com\<close> exists and is inactive, and the password is wrong: the result
  is the account-not-activated failure and the rate limiter has no entry for the address.
\<close>

theorem login_inactive_wrong_password_counterexample:
  "find (\<lambda>u. u_email u = ''a@x.com'') (users usersState) = Some alice \<and>
   \<not> u_isActive alice \<and>
   \<not> bcrypt_compare exampleLibs ''wrong'' (u_password alice) \<and>
   fst (login defaultConfig exampleLibs 1000 ''r1'' ''r2''
     \<lparr> c_email = ''a@x.com'', c_password = ''wrong'', c_twoFactorCode = None,
       c_twoFactorToken = None \<rparr> usersState) = loginFailure notActivatedMessage \<and>
   loginFailure notActivatedMessage \<noteq> loginFailure invalidCredentialsMessage \<and>
   loginAttempts (snd (login defaultConfig exampleLibs 1000 ''r1'' ''r2''
     \<lparr> c_email = ''a@x.com'', c_password = ''wrong'', c_twoFactorCode = None,
       c_twoFactorToken = None \<rparr> usersState)) ''a@x.com'' = None"
  by (simp add: login_def usersState_simps)
    (simp add: alice_def exampleLibs_def loginFailure_def notActivatedMessage_def
      invalidCredentialsMessage_def)

lemma loginTwoFactor_failure:
  assumes "c_twoFactorCode c = Some code" and "code \<noteq> []"
    and "c_twoFactorToken c = Some tok" and "tok \<noteq> []"
    and "verifyAuthToken now tok ''2fa'' s = None \<or>
         (\<exists>r. verifyAuthToken now tok ''2fa'' s = Some r \<and> at_userId r \<noteq> u_id u) \<or>
         \<not> totp_verify L (tf_secret tf) code 2 now"
  shows "snd (loginTwoFactor cfg L now rt rs c u tf s) = s"
    and "fst (loginTwoFactor cfg L now rt rs c u tf s) = loginFailure invalidTwoFactorTokenMessage \<or>
         fst (loginTwoFactor cfg L now rt rs c u tf s) = loginFailure invalidTwoFactorCodeMessage"
  using assms by (auto simp: loginTwoFactor_def split: option.splits)

text \<open>
  C4 (as the code has it): a login that reaches the two-factor step with a challenge token
  and a code, and whose challenge token is invalid or belongs to another user, or whose code
  does not verify with window 2, returns a two-factor failure and leaves the state as the
  rate check left it: no failed attempt is recorded for the email.
\<close>

theorem login_two_factor_failure_not_recorded:
  assumes "checkRateLimit cfg now (c_email c) s = (True, s0)"
    and "find (\<lambda>u. u_email u = c_email c) (users s0) = Some u"
    and "u_isActive u"
    and "bcrypt_compare L (c_password c) (u_password u)"
    and "find (\<lambda>t. tf_userId t = u_id u \<and> tf_isEnabled t = True) (twoFactorAuth s0) = Some tf"
    and "c_twoFactorCode c = Some code" and "code \<noteq> []"
    and "c_twoFactorToken c = Some tok" and "tok \<noteq> []"
    and "verifyAuthToken now tok ''2fa'' s0 = None \<or>
         (\<exists>r. verifyAuthToken now tok ''2fa'' s0 = Some r \<and> at_userId r \<noteq> u_id u) \<or>
         \<not> totp_verify L (tf_secret tf) code 2 now"
  shows "(fst (login cfg L now rt rs c s) = loginFailure invalidTwoFactorTokenMessage \<or>
          fst (login cfg L now rt rs c s) = loginFailure invalidTwoFactorCodeMessage) \<and>
         snd (login cfg L now rt rs c s) = s0 \<and>
         loginAttempts (snd (login cfg L now rt rs c s)) (c_email c) = loginAttempts s0 (c_email c)"
proof -
  have eq: "login cfg L now rt rs c s = loginTwoFactor cfg L now rt rs c u tf s0"
    using assms(1-5) by (rule login_two_factor_step)
  from loginTwoFactor_failure [OF assms(6-10), of cfg rt rs] eq show ?thesis
    by simp
qed

lemma example_simps:
  "u_id bob = 2" "u_isActive bob" "u_password bob = ''hash:S3cret?Word''"
  "u_username bob = ''bob''"
  "bcrypt_compare exampleLibs p h = (h = ''hash:'' @ p)"
  "totp_verify exampleLibs secret code w t = (code = ''123456'')"
  "jwt_sign exampleLibs usr secret lifetime = ''jwt:'' @ u_username usr"
  "at_userId exampleToken = 7"
  by (simp_all add: bob_def exampleLibs_def exampleToken_def)

lemma challengeState_simps:
  "checkRateLimit cfg now i challengeState = (True, challengeState)"
  "find (\<lambda>u. u_email u = ''b@x.com'') (users challengeState) = Some bob"
  "find (\<lambda>t. tf_userId t = 2 \<and> tf_isEnabled t) (twoFactorAuth challengeState) =
     Some bobTwoFactor"
  "loginAttempts challengeState = Map.empty"
  "verifyAuthToken 500 ''c0ffee'' ''2fa'' challengeState = Some exampleToken"
  by (simp_all add: checkRateLimit_def challengeState_def usersState_def emptyState_def alice_def
      bob_def bobTwoFactor_def verifyAuthToken_def exampleToken_def)

theorem login_two_factor_failure_not_recorded_witness:
  "fst (login defaultConfig exampleLibs 500 ''r1'' ''r2'' bobLogin challengeState) =
     loginFailure invalidTwoFactorTokenMessage \<and>
   snd (login defaultConfig exampleLibs 500 ''r1'' ''r2'' bobLogin challengeState) = challengeState \<and>
   loginAttempts (snd (login defaultConfig exampleLibs 500 ''r1'' ''r2'' bobLogin challengeState))
     ''b@x.com'' = None"
proof -
  have h: "checkRateLimit defaultConfig 500 (c_email bobLogin) challengeState = (True, challengeState)"
    "find (\<lambda>u. u_email u = c_email bobLogin) (users challengeState) = Some bob"
    "u_isActive bob"
    "bcrypt_compare exampleLibs (c_password bobLogin) (u_password bob)"
    "find (\<lambda>t. tf_userId t = u_id bob \<and> tf_isEnabled t = True) (twoFactorAuth challengeState) =
       Some bobTwoFactor"
    "c_twoFactorCode bobLogin = Some ''000000''" "''000000'' \<noteq> []"
    "c_twoFactorToken bobLogin = Some ''c0ffee''" "''c0ffee'' \<noteq> []"
    "verifyAuthToken 500 ''c0ffee'' ''2fa'' challengeState = None \<or>
       (\<exists>r. verifyAuthToken 500 ''c0ffee'' ''2fa'' challengeState = Some r \<and>
            at_userId r \<noteq> u_id bob) \<or>
       \<not> totp_verify exampleLibs (tf_secret bobTwoFactor) ''000000'' 2 500"
    by (simp_all add: challengeState_simps bobLogin_def example_simps)
  have m: "fst (login defaultConfig exampleLibs 500 ''r1'' ''r2'' bobLogin challengeState) \<noteq>
      loginFailure invalidTwoFactorCodeMessage"
    by (simp add: login_def loginTwoFactor_def challengeState_simps bobLogin_def example_simps
        loginFailure_def invalidTwoFactorCodeMessage_def invalidTwoFactorTokenMessage_def)
  from login_two_factor_failure_not_recorded [OF h, of "''r1''" "''r2''"] m
  show ?thesis by (simp add: challengeState_simps bobLogin_def)
qed

text \<open>
  The password of \<^verbatim>\<open>b@x.com\<close> is right, two-factor authentication is enabled, and the
  challenge token belongs to user 7, not to user 2: the login fails with the two-factor
  token failure, and the rate limiter has no entry for the address, before and after.
\<close>

theorem login_two_factor_failure_counterexample:
  "bcrypt_compare exampleLibs (c_password bobLogin) (u_password bob) \<and>
   verifyAuthToken 500 ''c0ffee'' ''2fa'' challengeState = Some exampleToken \<and>
   at_userId exampleToken \<noteq> u_id bob \<and>
   fst (login defaultConfig exampleLibs 500 ''r1'' ''r2'' bobLogin challengeState) =
     loginFailure invalidTwoFactorTokenMessage \<and>
   loginAttempts challengeState (c_email bobLogin) = None \<and>
   loginAttempts (snd (login defaultConfig exampleLibs 500 ''r1'' ''r2'' bobLogin challengeState))
     (c_email bobLogin) = None"
  by (simp add: login_def loginTwoFactor_def challengeState_simps bobLogin_def example_simps)

section \<open>Properties of registration\<close>

lemma find_append_skip: "\<forall>x \<in> set xs. \<not> P x \<Longrightarrow> find P (xs @ ys) = find P ys"
  by (induction xs) auto

lemma generateAuthToken_Inr:
  assumes "generateAuthToken now rnd uid ty ttl s = Inr (tok, s')"
  shows "tok = rnd" and "rnd \<notin> set (map at_token (authTokens s))"
    and "authTokens s' = authTokens s @
           [\<lparr> at_id = nextAuthTokenId s, at_userId = uid, at_token = rnd, at_type = ty,
              at_expiresAt = now + ttl, at_isUsed = False \<rparr>]"
    and "users s' = users s" and "sessions s' = sessions s"
    and "twoFactorAuth s' = twoFactorAuth s" and "loginAttempts s' = loginAttempts s"
  using assms by (auto simp: generateAuthToken_def Let_def split: if_splits)

lemma generateAuthToken_fresh:
  "rnd \<notin> set (map at_token (authTokens s)) \<Longrightarrow>
   \<exists>s'. generateAuthToken now rnd uid ty ttl s = Inr (rnd, s')"
  by (simp add: generateAuthToken_def Let_def)

lemma verifyAuthToken_fresh_row:
  assumes "tok \<notin> set (map at_token (authTokens s))"
    and "authTokens s' = authTokens s @
           [\<lparr> at_id = n, at_userId = uid, at_token = tok, at_type = ty,
              at_expiresAt = e, at_isUsed = False \<rparr>]"
    and "now < e"
  shows "verifyAuthToken now tok ty s' =
           Some \<lparr> at_id = n, at_userId = uid, at_token = tok, at_type = ty,
                  at_expiresAt = e, at_isUsed = False \<rparr>"
proof -
  have "\<forall>x \<in> set (authTokens s).
          \<not> (at_token x = tok \<and> at_type x = ty \<and> at_isUsed x = False \<and> at_expiresAt x > now)"
    using assms(1) by auto
  then show ?thesis
    unfolding verifyAuthToken_def assms(2) using assms(3)
    by (simp add: find_append_skip)
qed

lemma register_rejected:
  "\<not> registerChecks d s \<Longrightarrow> \<not> rr_success (fst (register cfg L now rnd d s))"
  by (cases "validatePassword (ud_password d)"; cases "validateEmail (ud_email d)";
      cases "find (\<lambda>u. u_email u = ud_email d) (users s) = None";
      cases "find (\<lambda>u. u_username u = ud_username d) (users s) = None")
    (simp_all add: register_def registerChecks_def registerFailure_def)

lemma register_accepted:
  "registerChecks d s \<Longrightarrow>
   register cfg L now rnd d s =
     (let user = newUser cfg L d s;
          s1 = s\<lparr> users := users s @ [user], nextUserId := Suc (nextUserId s) \<rparr>;
          token = jwt_sign L user (jwtSecret cfg) (jwtExpiration cfg)
      in if requireEmailVerification (cfg_security cfg) then
           (case generateAuthToken now rnd (u_id user) ''email_verification''
                   (emailVerification (cfg_tokenExpiration cfg)) s1 of
              Inl e \<Rightarrow>
                (registerFailure ''An error occurred during registration. Please try again.'', s1)
            | Inr (verificationToken, s2) \<Rightarrow>
                (\<lparr> rr_success = True, rr_user = Some user, rr_token = Some token,
                   rr_verificationToken = Some verificationToken,
                   rr_message = ''Account created successfully. Please check your email to verify your account.'' \<rparr>,
                 s2))
         else
           (\<lparr> rr_success = True, rr_user = Some user, rr_token = Some token,
              rr_verificationToken = None,
              rr_message = ''Account created successfully. Welcome to NeuroCore AI!'' \<rparr>,
            s1))"
  by (simp add: register_def registerChecks_def newUser_def Let_def)


lemma register_success:
  assumes "register cfg L now rnd d s = (res, s')" and "rr_success res"
  shows "registerChecks d s"
    and "rr_user res = Some (newUser cfg L d s)"
    and "rr_token res =
           Some (jwt_sign L (newUser cfg L d s) (jwtSecret cfg) (jwtExpiration cfg))"
    and "users s' = users s @ [newUser cfg L d s]"
    and "requireEmailVerification (cfg_security cfg) \<Longrightarrow>
           rr_verificationToken res = Some rnd \<and> rnd \<notin> set (map at_token (authTokens s)) \<and>
           authTokens s' = authTokens s @
             [\<lparr> at_id = nextAuthTokenId s, at_userId = nextUserId s, at_token = rnd,
                at_type = ''email_verification'',
                at_expiresAt = now + emailVerification (cfg_tokenExpiration cfg),
                at_isUsed = False \<rparr>]"
    and "\<not> requireEmailVerification (cfg_security cfg) \<Longrightarrow>
           rr_verificationToken res = None \<and> authTokens s' = authTokens s"
proof -
  show ok: "registerChecks d s"
    using assms register_rejected [of d s cfg L now rnd] by auto
  note eq = register_accepted [OF ok, of cfg L now rnd, unfolded assms(1)]
  let ?u = "newUser cfg L d s"
  let ?s1 = "s\<lparr> users := users s @ [?u], nextUserId := Suc (nextUserId s) \<rparr>"
  show "rr_user res = Some ?u"
    using eq assms(2)
    by (auto simp: Let_def registerFailure_def split: if_splits sum.splits prod.splits)
  show "rr_token res = Some (jwt_sign L ?u (jwtSecret cfg) (jwtExpiration cfg))"
    using eq assms(2)
    by (auto simp: Let_def registerFailure_def split: if_splits sum.splits prod.splits)
  show "users s' = users s @ [?u]"
    using eq assms(2)
    by (auto simp: Let_def registerFailure_def dest: generateAuthToken_Inr(4)
        split: if_splits sum.splits prod.splits)
  show "rr_verificationToken res = None \<and> authTokens s' = authTokens s"
    if "\<not> requireEmailVerification (cfg_security cfg)"
    using eq that by (simp add: Let_def)
  show "rr_verificationToken res = Some rnd \<and> rnd \<notin> set (map at_token (authTokens s)) \<and>
           authTokens s' = authTokens s @
             [\<lparr> at_id = nextAuthTokenId s, at_userId = nextUserId s, at_token = rnd,
                at_type = ''email_verification'',
                at_expiresAt = now + emailVerification (cfg_tokenExpiration cfg),
                at_isUsed = False \<rparr>]"
    if req: "requireEmailVerification (cfg_security cfg)"
  proof -
    obtain tok s2 where
      g: "generateAuthToken now rnd (u_id ?u) ''email_verification''
            (emailVerification (cfg_tokenExpiration cfg)) ?s1 = Inr (tok, s2)"
      and r: "res = \<lparr> rr_success = True, rr_user = Some ?u,
                 rr_token = Some (jwt_sign L ?u (jwtSecret cfg) (jwtExpiration cfg)),
                 rr_verificationToken = Some tok,
                 rr_message = ''Account created successfully. Please check your email to verify your account.'' \<rparr>"
      and s: "s' = s2"
      using eq req assms(2)
      by (auto simp: Let_def registerFailure_def split: sum.splits prod.splits)
    from generateAuthToken_Inr(1-3) [OF g] r s show ?thesis
      by (simp add: newUser_def)
  qed
qed


lemma carol_checks: "registerChecks carolData emptyState"
  by (simp add: registerChecks_def carolData_def emptyState_def validatePassword_def
      validateEmail_def isUpperCase_def isLowerCase_def isNumber_def isNonalpha_def isSpace_def)

lemma carol_registered:
  "rr_success (fst (register defaultConfig exampleLibs 1000 ''cafe01'' carolData emptyState))"
  "rr_token (fst (register defaultConfig exampleLibs 1000 ''cafe01'' carolData emptyState)) =
     Some ''jwt:carol''"
  "rr_verificationToken
     (fst (register defaultConfig exampleLibs 1000 ''cafe01'' carolData emptyState)) =
     Some ''cafe01''"
  by (simp_all add: register_accepted [OF carol_checks] Let_def generateAuthToken_def newUser_def)
    (simp_all add: defaultConfig_def emptyState_def exampleLibs_def carolData_def)


lemma verifyEmail_valid:
  assumes "verifyAuthToken now tok ''email_verification'' s = Some r"
  shows "success (fst (verifyEmail now tok s))"
    and "users (snd (verifyEmail now tok s)) =
           map (\<lambda>u. if u_id u = at_userId r then u\<lparr> u_isActive := True \<rparr> else u) (users s)"
  using assms by (simp_all add: verifyEmail_def Let_def markTokenAsUsed_def)

text \<open>
  C6 (as the code has it): every successful \<^verbatim>\<open>register\<close> call returns a signed bearer
  token for the new user, whether or not email verification is required. The new user is
  active exactly if verification is not required, and the result carries a verification
  token exactly if it is required.
\<close>

theorem register_always_returns_bearer_token:
  assumes "register cfg L now rnd d s = (res, s')" and "rr_success res"
  shows "\<exists>u. rr_user res = Some u \<and> u \<in> set (users s') \<and> u_email u = ud_email d \<and>
           u_isActive u = (\<not> requireEmailVerification (cfg_security cfg)) \<and>
           rr_token res = Some (jwt_sign L u (jwtSecret cfg) (jwtExpiration cfg)) \<and>
           (rr_verificationToken res \<noteq> None) = requireEmailVerification (cfg_security cfg)"
proof -
  let ?u = "newUser cfg L d s"
  note r = register_success [OF assms]
  have "rr_user res = Some ?u" by (rule r(2))
  moreover have "?u \<in> set (users s')" by (simp add: r(4))
  moreover have "u_email ?u = ud_email d" by (simp add: newUser_def)
  moreover have "u_isActive ?u = (\<not> requireEmailVerification (cfg_security cfg))"
    by (simp add: newUser_def)
  moreover have "rr_token res = Some (jwt_sign L ?u (jwtSecret cfg) (jwtExpiration cfg))"
    by (rule r(3))
  moreover have "(rr_verificationToken res \<noteq> None) = requireEmailVerification (cfg_security cfg)"
    using r(5,6) by (cases "requireEmailVerification (cfg_security cfg)") simp_all
  ultimately show ?thesis by blast
qed

theorem register_always_returns_bearer_token_witness:
  "\<exists>u. rr_user (fst (register defaultConfig exampleLibs 1000 ''cafe01'' carolData emptyState)) =
          Some u \<and>
        \<not> u_isActive u \<and>
        rr_token (fst (register defaultConfig exampleLibs 1000 ''cafe01'' carolData emptyState)) =
          Some (jwt_sign exampleLibs u (jwtSecret defaultConfig) (jwtExpiration defaultConfig))"
  using register_always_returns_bearer_token
    [OF prod.collapse [symmetric] carol_registered(1)]
  by (auto simp: defaultConfig_def)

text \<open>
  With the default configuration email verification is required; the registration of
  \<^verbatim>\<open>carol\<close> succeeds and its result carries a bearer token.
\<close>

theorem register_bearer_token_counterexample:
  "requireEmailVerification (cfg_security defaultConfig) \<and>
   rr_success (fst (register defaultConfig exampleLibs 1000 ''cafe01'' carolData emptyState)) \<and>
   rr_token (fst (register defaultConfig exampleLibs 1000 ''cafe01'' carolData emptyState)) =
     Some ''jwt:carol''"
  by (simp add: carol_registered) (simp add: defaultConfig_def)

text \<open>
  C10: a successful \<^verbatim>\<open>register\<close> call with email verification required returns, in
  \<^verbatim>\<open>verificationToken\<close>, the value of the token row it has just inserted: a value that was not
  in the ledger before, of kind \<^verbatim>\<open>email_verification\<close>, unused, bound to the new user and
  expiring after the configured lifetime. At any time before that expiry \<^verbatim>\<open>verifyEmail\<close>
  accepts the returned value and activates the new user.
\<close>

theorem register_returns_verification_token:
  assumes "register cfg L now rnd d s = (res, s')" and "rr_success res"
    and "requireEmailVerification (cfg_security cfg)"
  shows "rr_verificationToken res = Some rnd \<and>
         rnd \<notin> set (map at_token (authTokens s)) \<and>
         (\<exists>u. rr_user res = Some u \<and>
            authTokens s' = authTokens s @
              [\<lparr> at_id = nextAuthTokenId s, at_userId = u_id u, at_token = rnd,
                 at_type = ''email_verification'',
                 at_expiresAt = now + emailVerification (cfg_tokenExpiration cfg),
                 at_isUsed = False \<rparr>] \<and>
            (\<forall>now'. now' < now + emailVerification (cfg_tokenExpiration cfg) \<longrightarrow>
               success (fst (verifyEmail now' rnd s')) \<and>
               u\<lparr> u_isActive := True \<rparr> \<in> set (users (snd (verifyEmail now' rnd s')))))"
proof -
  let ?u = "newUser cfg L d s"
  let ?row = "\<lparr> at_id = nextAuthTokenId s, at_userId = nextUserId s, at_token = rnd,
                 at_type = ''email_verification'',
                 at_expiresAt = now + emailVerification (cfg_tokenExpiration cfg),
                 at_isUsed = False \<rparr>"
  note r = register_success [OF assms(1,2)]
  from r(5) [OF assms(3)] have tok: "rr_verificationToken res = Some rnd"
    and fresh: "rnd \<notin> set (map at_token (authTokens s))"
    and rows: "authTokens s' = authTokens s @ [?row]"
    by simp_all
  have uid: "u_id ?u = nextUserId s" by (simp add: newUser_def)
  have accept: "success (fst (verifyEmail now' rnd s')) \<and>
      ?u\<lparr> u_isActive := True \<rparr> \<in> set (users (snd (verifyEmail now' rnd s')))"
    if "now' < now + emailVerification (cfg_tokenExpiration cfg)" for now'
  proof -
    have v: "verifyAuthToken now' rnd ''email_verification'' s' = Some ?row"
      using fresh rows that by (rule verifyAuthToken_fresh_row)
    have "?u \<in> set (users s')" by (simp add: r(4))
    then have "(\<lambda>u. if u_id u = at_userId ?row then u\<lparr> u_isActive := True \<rparr> else u) ?u
        \<in> set (map (\<lambda>u. if u_id u = at_userId ?row then u\<lparr> u_isActive := True \<rparr> else u)
              (users s'))"
      by (simp only: set_map) (rule imageI)
    then have "?u\<lparr> u_isActive := True \<rparr> \<in> set (users (snd (verifyEmail now' rnd s')))"
      by (simp add: verifyEmail_valid(2) [OF v] uid)
    with verifyEmail_valid(1) [OF v] show ?thesis by simp
  qed
  from tok fresh rows accept r(2) uid show ?thesis by auto
qed

theorem register_returns_verification_token_witness:
  "rr_verificationToken
     (fst (register defaultConfig exampleLibs 1000 ''cafe01'' carolData emptyState)) =
     Some ''cafe01'' \<and>
   success (fst (verifyEmail 2000 ''cafe01''
     (snd (register defaultConfig exampleLibs 1000 ''cafe01'' carolData emptyState))))"
proof -
  have req: "requireEmailVerification (cfg_security defaultConfig)"
    by (simp add: defaultConfig_def)
  have t: "(2000::int) < 1000 + emailVerification (cfg_tokenExpiration defaultConfig)"
    by (simp add: defaultConfig_def)
  from register_returns_verification_token
    [OF prod.collapse [symmetric] carol_registered(1) req] t
  show ?thesis by blast
qed

section \<open>Properties of the password reset\<close>

lemma requestPasswordReset_unknown:
  "find (\<lambda>u. u_email u = email) (users s) = None \<Longrightarrow>
   requestPasswordReset cfg now rnd email s =
     (\<lparr> success = True, message = resetRequestedMessage \<rparr>, s)"
  by (simp add: requestPasswordReset_def)

lemma requestPasswordReset_known:
  assumes "find (\<lambda>u. u_email u = email) (users s) = Some u"
    and "rnd \<notin> set (map at_token (authTokens s))"
  shows "fst (requestPasswordReset cfg now rnd email s) =
           \<lparr> success = True, message = resetRequestedMessage \<rparr>"
    and "authTokens (snd (requestPasswordReset cfg now rnd email s)) = authTokens s @
           [\<lparr> at_id = nextAuthTokenId s, at_userId = u_id u, at_token = rnd,
              at_type = ''password_reset'',
              at_expiresAt = now + passwordReset (cfg_tokenExpiration cfg),
              at_isUsed = False \<rparr>]"
  using assms by (simp_all add: requestPasswordReset_def generateAuthToken_def Let_def)

text \<open>
  C7: \<^verbatim>\<open>requestPasswordReset\<close> for an email of an existing user, the generated token value
  being new to the ledger, and for an email of no user return the same result, success
  with the generic message, at any times and in any states. The call for the unknown email
  leaves the state as it is, so it issues no token; the call for the existing user appends
  a \<^verbatim>\<open>password_reset\<close> row. The result of the call for the existing user is the same for
  every token value generated, so it does not contain the value.
\<close>

theorem requestPasswordReset_generic:
  assumes "find (\<lambda>u. u_email u = known) (users s) = Some u"
    and "rnd \<notin> set (map at_token (authTokens s))"
    and "find (\<lambda>u. u_email u = unknown) (users s') = None"
  shows "fst (requestPasswordReset cfg now rnd known s) =
           fst (requestPasswordReset cfg now' rnd' unknown s') \<and>
         fst (requestPasswordReset cfg now rnd known s) =
           \<lparr> success = True, message = resetRequestedMessage \<rparr> \<and>
         snd (requestPasswordReset cfg now' rnd' unknown s') = s' \<and>
         authTokens (snd (requestPasswordReset cfg now rnd known s)) = authTokens s @
           [\<lparr> at_id = nextAuthTokenId s, at_userId = u_id u, at_token = rnd,
              at_type = ''password_reset'',
              at_expiresAt = now + passwordReset (cfg_tokenExpiration cfg),
              at_isUsed = False \<rparr>] \<and>
         (\<forall>rnd2. rnd2 \<notin> set (map at_token (authTokens s)) \<longrightarrow>
            fst (requestPasswordReset cfg now rnd2 known s) =
              fst (requestPasswordReset cfg now rnd known s))"
  using requestPasswordReset_known [OF assms(1,2), of cfg now]
    requestPasswordReset_known(1) [OF assms(1), of _ cfg now]
    requestPasswordReset_unknown [OF assms(3), of cfg now' rnd']
  by simp

theorem requestPasswordReset_generic_witness:
  "fst (requestPasswordReset defaultConfig 1000 ''feed01'' ''b@x.com'' usersState) =
     fst (requestPasswordReset defaultConfig 1000 ''feed02'' ''nobody@x.com'' usersState) \<and>
   snd (requestPasswordReset defaultConfig 1000 ''feed02'' ''nobody@x.com'' usersState) =
     usersState \<and>
   map at_token (authTokens (snd (requestPasswordReset defaultConfig 1000 ''feed01'' ''b@x.com''
     usersState))) = [''feed01'']"
proof -
  have h: "find (\<lambda>u. u_email u = ''b@x.com'') (users usersState) = Some bob"
    "''feed01'' \<notin> set (map at_token (authTokens usersState))"
    "find (\<lambda>u. u_email u = ''nobody@x.com'') (users usersState) = None"
    by (simp_all add: usersState_simps)
      (simp add: usersState_def emptyState_def alice_def bob_def)
  from requestPasswordReset_generic [OF h, of defaultConfig 1000 1000 "''feed02''"]
  show ?thesis by (simp add: usersState_simps)
qed

lemma resetPassword_valid:
  assumes "validatePassword pw" and "verifyAuthToken now tok ''password_reset'' s = Some r"
  shows "resetPassword cfg L now tok pw s =
    (\<lparr> success = True,
       message = ''Password reset successfully. Please log in with your new password.'' \<rparr>,
     last (resetPasswordWrites tok r (bcrypt_hash L pw (bcryptRounds cfg)) s))"
  using assms by (simp add: resetPassword_def Let_def)

lemma resetPassword_invalid:
  "\<not> validatePassword pw \<Longrightarrow> \<not> success (fst (resetPassword cfg L now tok pw s))"
  "verifyAuthToken now tok ''password_reset'' s = None \<Longrightarrow>
   \<not> success (fst (resetPassword cfg L now tok pw s))"
  by (simp_all add: resetPassword_def)

lemma resetPassword_success:
  assumes "resetPassword cfg L now tok pw s = (res, s')" and "success res"
  obtains r where "verifyAuthToken now tok ''password_reset'' s = Some r"
    and "s' = last (resetPasswordWrites tok r (bcrypt_hash L pw (bcryptRounds cfg)) s)"
proof -
  from assms have ok: "success (fst (resetPassword cfg L now tok pw s))" by simp
  with resetPassword_invalid(1) [of pw cfg L now tok s] have vp: "validatePassword pw"
    by blast
  from ok resetPassword_invalid(2) [of now tok s cfg L pw]
  obtain r where v: "verifyAuthToken now tok ''password_reset'' s = Some r"
    by (cases "verifyAuthToken now tok ''password_reset'' s") auto
  from resetPassword_valid [OF vp v, of cfg L] assms(1)
  have "s' = last (resetPasswordWrites tok r (bcrypt_hash L pw (bcryptRounds cfg)) s)"
    by simp
  with v show ?thesis by (rule that)
qed

lemma updateUserPassword_frame:
  "authTokens (updateUserPassword uid h s) = authTokens s"
  "sessions (updateUserPassword uid h s) = sessions s"
  by (simp_all add: updateUserPassword_def)

lemma in_set_map_if:
  "x \<in> set (map (\<lambda>u. if P u then f u else u) xs) \<longleftrightarrow>
   (\<exists>u \<in> set xs. P u \<and> x = f u) \<or> (x \<in> set xs \<and> \<not> P x)"
  by (induction xs) auto

lemma updateUserPassword_hash:
  assumes "x \<in> set (users (updateUserPassword uid h s))" and "u_id x = uid"
  shows "u_password x = h"
proof -
  from assms(1) have "(\<exists>u \<in> set (users s). u_id u = uid \<and> x = u\<lparr> u_password := h \<rparr>) \<or>
      (x \<in> set (users s) \<and> \<not> u_id x = uid)"
    using in_set_map_if [of x "\<lambda>u. u_id u = uid" "\<lambda>u. u\<lparr> u_password := h \<rparr>" "users s"]
    by (simp add: updateUserPassword_def)
  with assms(2) obtain u where "x = u\<lparr> u_password := h \<rparr>" by blast
  then show ?thesis by simp
qed

lemma markTokenAsUsed_frame:
  "users (markTokenAsUsed tok s) = users s"
  "sessions (markTokenAsUsed tok s) = sessions s"
  by (simp_all add: markTokenAsUsed_def)

lemma markTokenAsUsed_used:
  assumes "x \<in> set (authTokens (markTokenAsUsed tok s))" and "at_token x = tok"
  shows "at_isUsed x"
proof -
  from assms(1) have "(\<exists>u \<in> set (authTokens s). at_token u = tok \<and> x = u\<lparr> at_isUsed := True \<rparr>) \<or>
      (x \<in> set (authTokens s) \<and> \<not> at_token x = tok)"
    using in_set_map_if [of x "\<lambda>u. at_token u = tok" "\<lambda>u. u\<lparr> at_isUsed := True \<rparr>"
        "authTokens s"]
    by (simp add: markTokenAsUsed_def)
  with assms(2) obtain u where "x = u\<lparr> at_isUsed := True \<rparr>" by blast
  then show ?thesis by simp
qed

lemma invalidateUserSessions_frame:
  "users (invalidateUserSessions uid s) = users s"
  "authTokens (invalidateUserSessions uid s) = authTokens s"
  by (simp_all add: invalidateUserSessions_def)

lemma in_set_map_if_keep:
  "x \<in> set xs \<Longrightarrow> \<not> P x \<Longrightarrow> x \<in> set (map (\<lambda>r. if P r then f r else r) xs)"
  by (induction xs) auto

lemma in_set_map_if_hit:
  "x \<in> set xs \<Longrightarrow> P x \<Longrightarrow> f x \<in> set (map (\<lambda>r. if P r then f r else r) xs)"
  by (induction xs) auto

lemma resetPasswordWrites_states:
  "resetPasswordWrites tok r h s =
     [s\<lparr> users := map (\<lambda>u. if u_id u = at_userId r then u\<lparr> u_password := h \<rparr> else u)
                     (users s) \<rparr>,
      s\<lparr> users := map (\<lambda>u. if u_id u = at_userId r then u\<lparr> u_password := h \<rparr> else u)
                     (users s),
         authTokens := map (\<lambda>t. if at_token t = tok then t\<lparr> at_isUsed := True \<rparr> else t)
                         (authTokens s) \<rparr>,
      s\<lparr> users := map (\<lambda>u. if u_id u = at_userId r then u\<lparr> u_password := h \<rparr> else u)
                     (users s),
         authTokens := map (\<lambda>t. if at_token t = tok then t\<lparr> at_isUsed := True \<rparr> else t)
                         (authTokens s),
         sessions := filter (\<lambda>x. se_userId x \<noteq> at_userId r) (sessions s) \<rparr>]"
  by (simp add: resetPasswordWrites_def Let_def updateUserPassword_def markTokenAsUsed_def
      invalidateUserSessions_def)

text \<open>
  C2: a successful \<^verbatim>\<open>resetPassword\<close> has verified a \<^verbatim>\<open>password_reset\<close> token of some user
  and made three writes in this order. The first changes the users table only: the rows of
  that user get the new hash, all other rows are as before. The second changes the token
  table only: the rows with the token value, the verified row among them, are marked used,
  all other rows are as before. The third changes the sessions table only: it deletes the
  sessions of that user and gives the final state. So after the first write the token is
  still unused and the sessions are all there, and after the second the sessions are all
  there. In the final state every row of that user carries the new hash, the verified token
  is used, no session of that user is left, and the sessions of the other users are those
  of before, in their order.
\<close>

theorem resetPassword_invalidates_sessions:
  assumes "resetPassword cfg L now tok pw s = (res, s')" and "success res"
  shows "\<exists>r s1 s2.
           verifyAuthToken now tok ''password_reset'' s = Some r \<and>
           resetPasswordWrites tok r (bcrypt_hash L pw (bcryptRounds cfg)) s = [s1, s2, s'] \<and>
           s1 = s\<lparr> users :=
                    map (\<lambda>u. if u_id u = at_userId r
                              then u\<lparr> u_password := bcrypt_hash L pw (bcryptRounds cfg) \<rparr>
                              else u) (users s) \<rparr> \<and>
           s2 = s1\<lparr> authTokens :=
                     map (\<lambda>t. if at_token t = tok then t\<lparr> at_isUsed := True \<rparr> else t)
                       (authTokens s) \<rparr> \<and>
           s' = s2\<lparr> sessions := filter (\<lambda>x. se_userId x \<noteq> at_userId r) (sessions s) \<rparr> \<and>
           (\<forall>x \<in> set (users s). u_id x = at_userId r \<longrightarrow>
              x\<lparr> u_password := bcrypt_hash L pw (bcryptRounds cfg) \<rparr> \<in> set (users s')) \<and>
           (\<forall>x \<in> set (users s). u_id x \<noteq> at_userId r \<longrightarrow> x \<in> set (users s')) \<and>
           (\<forall>x \<in> set (users s'). u_id x = at_userId r \<longrightarrow>
              u_password x = bcrypt_hash L pw (bcryptRounds cfg)) \<and>
           length (users s') = length (users s) \<and>
           r\<lparr> at_isUsed := True \<rparr> \<in> set (authTokens s') \<and>
           (\<forall>x \<in> set (authTokens s). at_token x \<noteq> tok \<longrightarrow> x \<in> set (authTokens s')) \<and>
           (\<forall>x \<in> set (authTokens s'). at_token x = tok \<longrightarrow> at_isUsed x) \<and>
           length (authTokens s') = length (authTokens s) \<and>
           (\<forall>x \<in> set (users s1). u_id x = at_userId r \<longrightarrow>
              u_password x = bcrypt_hash L pw (bcryptRounds cfg)) \<and>
           authTokens s1 = authTokens s \<and> sessions s1 = sessions s \<and>
           users s2 = users s1 \<and>
           (\<forall>x \<in> set (authTokens s2). at_token x = tok \<longrightarrow> at_isUsed x) \<and>
           sessions s2 = sessions s \<and>
           users s' = users s1 \<and> authTokens s' = authTokens s2 \<and>
           sessions s' = filter (\<lambda>x. se_userId x \<noteq> at_userId r) (sessions s) \<and>
           (\<forall>x \<in> set (sessions s'). se_userId x \<noteq> at_userId r) \<and>
           (\<forall>x \<in> set (sessions s). se_userId x \<noteq> at_userId r \<longrightarrow> x \<in> set (sessions s'))"
proof -
  from assms obtain r where v: "verifyAuthToken now tok ''password_reset'' s = Some r"
    and s': "s' = last (resetPasswordWrites tok r (bcrypt_hash L pw (bcryptRounds cfg)) s)"
    by (rule resetPassword_success)
  let ?h = "bcrypt_hash L pw (bcryptRounds cfg)"
  let ?P = "\<lambda>u. u_id u = at_userId r"
  let ?f = "\<lambda>u. u\<lparr> u_password := ?h \<rparr>"
  let ?Q = "\<lambda>t. at_token t = tok"
  let ?g = "\<lambda>t. t\<lparr> at_isUsed := True \<rparr>"
  let ?us = "map (\<lambda>u. if ?P u then ?f u else u) (users s)"
  let ?ts = "map (\<lambda>t. if ?Q t then ?g t else t) (authTokens s)"
  let ?s1 = "updateUserPassword (at_userId r) ?h s"
  let ?s2 = "markTokenAsUsed tok ?s1"
  have w: "resetPasswordWrites tok r ?h s = [?s1, ?s2, s']"
    by (simp add: resetPasswordWrites_def Let_def s')
  have e: "s' = invalidateUserSessions (at_userId r) ?s2"
    by (simp add: resetPasswordWrites_def Let_def s')
  have x1: "?s1 = s\<lparr> users := ?us \<rparr>"
    by (simp add: updateUserPassword_def)
  have x2: "?s2 = ?s1\<lparr> authTokens := ?ts \<rparr>"
    by (simp add: markTokenAsUsed_def updateUserPassword_def)
  have x3: "s' = ?s2\<lparr> sessions := filter (\<lambda>x. se_userId x \<noteq> at_userId r) (sessions s) \<rparr>"
    by (simp add: e invalidateUserSessions_def markTokenAsUsed_def updateUserPassword_def)
  have us: "users s' = ?us"
    by (simp add: e invalidateUserSessions_def markTokenAsUsed_def updateUserPassword_def)
  have ts: "authTokens s' = ?ts"
    by (simp add: e invalidateUserSessions_def markTokenAsUsed_def updateUserPassword_def)
  have u1: "\<forall>x \<in> set (users s). u_id x = at_userId r \<longrightarrow> x\<lparr> u_password := ?h \<rparr> \<in> set (users s')"
    unfolding us by (intro ballI impI) (rule in_set_map_if_hit [where P = ?P and f = ?f])
  have u2: "\<forall>x \<in> set (users s). u_id x \<noteq> at_userId r \<longrightarrow> x \<in> set (users s')"
    unfolding us by (intro ballI impI) (rule in_set_map_if_keep [where P = ?P and f = ?f])
  have 1: "\<forall>x \<in> set (users ?s1). u_id x = at_userId r \<longrightarrow> u_password x = ?h"
    by (blast dest: updateUserPassword_hash)
  have 6: "authTokens ?s1 = authTokens s" "sessions ?s1 = sessions s" "users ?s2 = users ?s1"
    "sessions ?s2 = sessions s" "users s' = users ?s1" "authTokens s' = authTokens ?s2"
    by (simp_all add: e invalidateUserSessions_frame markTokenAsUsed_frame
        updateUserPassword_frame)
  have u3: "\<forall>x \<in> set (users s'). u_id x = at_userId r \<longrightarrow> u_password x = ?h"
    using 1 by (simp only: 6(5))
  have u4: "length (users s') = length (users s)"
    by (simp add: us)
  from v have rin: "r \<in> set (authTokens s)" and rtok: "at_token r = tok"
    by (rule verifyAuthToken_Some)+
  have t1: "r\<lparr> at_isUsed := True \<rparr> \<in> set (authTokens s')"
    unfolding ts using rin rtok by (rule in_set_map_if_hit [where P = ?Q and f = ?g])
  have t2: "\<forall>x \<in> set (authTokens s). at_token x \<noteq> tok \<longrightarrow> x \<in> set (authTokens s')"
    unfolding ts by (intro ballI impI) (rule in_set_map_if_keep [where P = ?Q and f = ?g])
  have 2: "\<forall>x \<in> set (authTokens ?s2). at_token x = tok \<longrightarrow> at_isUsed x"
    by (blast dest: markTokenAsUsed_used)
  have t3: "\<forall>x \<in> set (authTokens s'). at_token x = tok \<longrightarrow> at_isUsed x"
    using 2 by (simp only: 6(6))
  have t4: "length (authTokens s') = length (authTokens s)"
    by (simp add: ts)
  have 3: "sessions s' = filter (\<lambda>x. se_userId x \<noteq> at_userId r) (sessions s)"
    by (simp add: e invalidateUserSessions_def markTokenAsUsed_frame updateUserPassword_frame)
  have 4: "\<forall>x \<in> set (sessions s'). se_userId x \<noteq> at_userId r"
    by (simp add: 3)
  have 5: "\<forall>x \<in> set (sessions s). se_userId x \<noteq> at_userId r \<longrightarrow> x \<in> set (sessions s')"
    by (simp add: 3)
  show ?thesis
    by (rule exI [of _ r], rule exI [of _ ?s1], rule exI [of _ ?s2])
      (intro conjI v w x1 x2 x3 u1 u2 u3 u4 t1 t2 t3 t4 1 2 3 4 5 6)
qed

lemma resetState_simps:
  "verifyAuthToken 1000 ''dead01'' ''password_reset'' resetState = Some resetToken"
  "sessions resetState = [bobSession, aliceSession]"
  "users resetState = [alice, bob]"
  "authTokens resetState = [resetToken]"
  "at_userId resetToken = 2" "at_token resetToken = ''dead01''"
  "se_userId bobSession = 2" "se_userId aliceSession = 1"
  "u_id alice = 1" "u_id bob = 2"
  by (simp_all add: verifyAuthToken_def resetState_def resetToken_def bobSession_def
      aliceSession_def usersState_def emptyState_def alice_def bob_def)

lemma newPassword_valid: "validatePassword ''N3w!Passw0rd''"
  by (simp add: validatePassword_def isUpperCase_def isLowerCase_def isNumber_def isNonalpha_def)

theorem resetPassword_invalidates_sessions_witness:
  "success (fst (resetPassword defaultConfig exampleLibs 1000 ''dead01'' ''N3w!Passw0rd''
     resetState)) \<and>
   users (snd (resetPassword defaultConfig exampleLibs 1000 ''dead01'' ''N3w!Passw0rd''
     resetState)) = [alice, bob\<lparr> u_password := ''hash:N3w!Passw0rd'' \<rparr>] \<and>
   authTokens (snd (resetPassword defaultConfig exampleLibs 1000 ''dead01'' ''N3w!Passw0rd''
     resetState)) = [resetToken\<lparr> at_isUsed := True \<rparr>] \<and>
   sessions (snd (resetPassword defaultConfig exampleLibs 1000 ''dead01'' ''N3w!Passw0rd''
     resetState)) = [aliceSession]"
proof -
  let ?call = "resetPassword defaultConfig exampleLibs 1000 ''dead01'' ''N3w!Passw0rd'' resetState"
  let ?h = "bcrypt_hash exampleLibs ''N3w!Passw0rd'' (bcryptRounds defaultConfig)"
  have ok: "success (fst ?call)"
    by (simp add: resetPassword_valid [OF newPassword_valid resetState_simps(1)])
  from resetPassword_invalidates_sessions [OF prod.collapse [symmetric] ok]
  obtain r s1 s2 where "verifyAuthToken 1000 ''dead01'' ''password_reset'' resetState = Some r"
    and "s1 = resetState\<lparr> users :=
           map (\<lambda>u. if u_id u = at_userId r then u\<lparr> u_password := ?h \<rparr> else u)
             (users resetState) \<rparr>"
    and "s2 = s1\<lparr> authTokens :=
           map (\<lambda>t. if at_token t = ''dead01'' then t\<lparr> at_isUsed := True \<rparr> else t)
             (authTokens resetState) \<rparr>"
    and "snd ?call = s2\<lparr> sessions :=
           filter (\<lambda>x. se_userId x \<noteq> at_userId r) (sessions resetState) \<rparr>"
    by blast
  then have "users (snd ?call) = [alice, bob\<lparr> u_password := ''hash:N3w!Passw0rd'' \<rparr>] \<and>
      authTokens (snd ?call) = [resetToken\<lparr> at_isUsed := True \<rparr>] \<and>
      sessions (snd ?call) = [aliceSession]"
    by (simp add: resetState_simps exampleLibs_def)
  with ok show ?thesis by simp
qed

section \<open>Properties of the periodic cleanup\<close>

lemma cleanupTask_sessions:
  "sessions (cleanupTask now s) = filter (\<lambda>r. se_expiresAt r \<le> now) (sessions s)"
  by (simp add: cleanupTask_def Let_def not_less)

text \<open>
  C9: the code does not do what the claim says, nor what its own comment says
  (\<^verbatim>\<open>Clean up expired tokens and sessions\<close>): the delete on the sessions is on
  \<^verbatim>\<open>gt(sessions.expiresAt, new Date())\<close>. At time 1000 the store holds the session of user
  2, valid until 9000, and the session of user 1, expired at 500. A run of the cleanup task
  deletes the valid session and keeps the expired one.
\<close>

theorem cleanupTask_deletes_valid_session:
  "sessions resetState = [bobSession, aliceSession] \<and>
   1000 < se_expiresAt bobSession \<and> se_expiresAt aliceSession < 1000 \<and>
   sessions (cleanupTask 1000 resetState) = [aliceSession]"
  by (simp add: cleanupTask_def Let_def resetState_def bobSession_def aliceSession_def)

section \<open>Properties of the mail queue\<close>

lemma map_key_map_if:
  "(\<And>x. g (f x) = g x) \<Longrightarrow> map g (map (\<lambda>r. if P r then f r else r) xs) = map g xs"
  by (induction xs) auto

lemma distinct_key_eq:
  "distinct (map f xs) \<Longrightarrow> x \<in> set xs \<Longrightarrow> y \<in> set xs \<Longrightarrow> f x = f y \<Longrightarrow> x = y"
  by (meson distinct_map inj_on_def)

lemma processEmail_ids:
  "map q_id (emailQueue (processEmail now send e ms)) = map q_id (emailQueue ms)"
proof (cases "send e")
  case None
  then show ?thesis
    by (simp add: processEmail_def Let_def map_key_map_if [where g = q_id])
next
  case (Some err)
  then show ?thesis
    by (simp add: processEmail_def Let_def map_key_map_if [where g = q_id])
qed

lemma processEmail_log: "sendLog (processEmail now send e ms) = sendLog ms @ [e]"
  by (cases "send e") (simp_all add: processEmail_def Let_def)

lemma processEmail_keeps:
  assumes "r \<in> set (emailQueue ms)" and "q_id e \<noteq> q_id r"
  shows "r \<in> set (emailQueue (processEmail now send e ms))"
proof -
  let ?P = "\<lambda>x. q_id x = q_id e"
  have n: "\<not> ?P r" using assms(2) by simp
  have 1: "r \<in> set (map (\<lambda>x. if ?P x then x\<lparr> q_status := ''sending'' \<rparr> else x) (emailQueue ms))"
    using assms(1) n by (rule in_set_map_if_keep [where P = ?P])
  show ?thesis
  proof (cases "send e")
    case None
    with in_set_map_if_keep [where P = ?P and
        f = "\<lambda>x. x\<lparr> q_status := ''sent'', q_sentAt := Some now \<rparr>", OF 1 n]
    show ?thesis by (simp add: processEmail_def Let_def)
  next
    case (Some err)
    with in_set_map_if_keep [where P = ?P and
        f = "\<lambda>x. x\<lparr> q_status := ''failed'', q_attempts := q_attempts e + 1,
          q_lastAttempt := Some now, q_error := Some err \<rparr>", OF 1 n]
    show ?thesis by (simp add: processEmail_def Let_def)
  qed
qed

lemma fold_processEmail_ids:
  "map q_id (emailQueue (fold (processEmail now send) es ms)) = map q_id (emailQueue ms)"
  by (induction es arbitrary: ms) (simp_all add: processEmail_ids)

lemma fold_processEmail_log:
  "sendLog (fold (processEmail now send) es ms) = sendLog ms @ es"
  by (induction es arbitrary: ms) (simp_all add: processEmail_log)

lemma fold_processEmail_keeps:
  "r \<in> set (emailQueue ms) \<Longrightarrow> \<forall>e \<in> set es. q_id e \<noteq> q_id r \<Longrightarrow>
   r \<in> set (emailQueue (fold (processEmail now send) es ms))"
  by (induction es arbitrary: ms) (simp_all add: processEmail_keeps)

lemma fold_retryEmail_eq:
  "fold (retryEmail cfg now send) es ms =
   fold (processEmail now send) (filter (retryDue cfg now) es) ms"
  by (induction es arbitrary: ms) (simp_all add: retryEmail_def)

lemma processEmailQueue_eq:
  "processEmailQueue cfg now send ms =
     (let ms1 = fold (processEmail now send) (pendingBatch cfg ms) ms
      in fold (processEmail now send) (retryBatch cfg now ms1) ms1)"
  by (simp add: processEmailQueue_def Let_def fold_retryEmail_eq pendingBatch_def retryBatch_def)

lemma pendingBatch_props:
  "e \<in> set (pendingBatch cfg ms) \<Longrightarrow> e \<in> set (emailQueue ms) \<and> q_status e = ''pending''"
  unfolding pendingBatch_def by (auto dest: in_set_takeD)

lemma retryBatch_props:
  "e \<in> set (retryBatch cfg now ms) \<Longrightarrow>
   e \<in> set (emailQueue ms) \<and> q_status e = ''failed'' \<and> retryDue cfg now e"
  unfolding retryBatch_def by (auto dest: in_set_takeD)

lemma processEmailQueue_ids:
  "map q_id (emailQueue (processEmailQueue cfg now send ms)) = map q_id (emailQueue ms)"
  by (simp add: processEmailQueue_eq Let_def fold_processEmail_ids)

lemma processEmailQueue_log:
  "sendLog (processEmailQueue cfg now send ms) =
     sendLog ms @ pendingBatch cfg ms @
       retryBatch cfg now (fold (processEmail now send) (pendingBatch cfg ms) ms)"
  by (simp add: processEmailQueue_eq Let_def fold_processEmail_log)


lemma processEmailQueue_exhausted:
  assumes d: "distinct (map q_id (emailQueue ms))" and r: "r \<in> set (emailQueue ms)"
    and f: "q_status r = ''failed''" and x: "maxAttempts (cfg_retry cfg) \<le> q_attempts r"
  shows "r \<in> set (emailQueue (processEmailQueue cfg now send ms))"
    and "\<exists>new. sendLog (processEmailQueue cfg now send ms) = sendLog ms @ new \<and>
           (\<forall>e \<in> set new. q_id e \<noteq> q_id r)"
proof -
  let ?ms1 = "fold (processEmail now send) (pendingBatch cfg ms) ms"
  have p: "\<forall>e \<in> set (pendingBatch cfg ms). q_id e \<noteq> q_id r"
  proof
    fix e assume "e \<in> set (pendingBatch cfg ms)"
    then have e: "e \<in> set (emailQueue ms)" and s: "q_status e = ''pending''"
      by (simp_all add: pendingBatch_props)
    show "q_id e \<noteq> q_id r"
    proof
      assume "q_id e = q_id r"
      with d e r have "e = r" by (rule distinct_key_eq)
      with s f show False by simp
    qed
  qed
  with r have r1: "r \<in> set (emailQueue ?ms1)" by (rule fold_processEmail_keeps)
  have d1: "distinct (map q_id (emailQueue ?ms1))"
    by (simp add: fold_processEmail_ids d)
  have q: "\<forall>e \<in> set (retryBatch cfg now ?ms1). q_id e \<noteq> q_id r"
  proof
    fix e assume "e \<in> set (retryBatch cfg now ?ms1)"
    then have e: "e \<in> set (emailQueue ?ms1)" and due: "retryDue cfg now e"
      by (simp_all add: retryBatch_props)
    show "q_id e \<noteq> q_id r"
    proof
      assume "q_id e = q_id r"
      with d1 e r1 have "e = r" by (rule distinct_key_eq)
      with due x show False by (simp add: retryDue_def)
    qed
  qed
  with r1 have "r \<in> set (emailQueue (fold (processEmail now send) (retryBatch cfg now ?ms1) ?ms1))"
    by (rule fold_processEmail_keeps)
  then show "r \<in> set (emailQueue (processEmailQueue cfg now send ms))"
    by (simp add: processEmailQueue_eq Let_def)
  have "sendLog (processEmailQueue cfg now send ms) =
      sendLog ms @ (pendingBatch cfg ms @ retryBatch cfg now ?ms1)"
    by (simp add: processEmailQueue_log)
  moreover from p q have "\<forall>e \<in> set (pendingBatch cfg ms @ retryBatch cfg now ?ms1). q_id e \<noteq> q_id r"
    by auto
  ultimately show "\<exists>new. sendLog (processEmailQueue cfg now send ms) = sendLog ms @ new \<and>
           (\<forall>e \<in> set new. q_id e \<noteq> q_id r)"
    by blast
qed

lemma processorRuns_ids:
  "map q_id (emailQueue (processorRuns cfg ticks ms)) = map q_id (emailQueue ms)"
  by (induction cfg ticks ms rule: processorRuns.induct) (simp_all add: processEmailQueue_ids)

lemma processorRuns_exhausted:
  assumes "distinct (map q_id (emailQueue ms))" and "r \<in> set (emailQueue ms)"
    and "q_status r = ''failed''" and "maxAttempts (cfg_retry cfg) \<le> q_attempts r"
  shows "r \<in> set (emailQueue (processorRuns cfg ticks ms)) \<and>
         (\<exists>new. sendLog (processorRuns cfg ticks ms) = sendLog ms @ new \<and>
            (\<forall>e \<in> set new. q_id e \<noteq> q_id r))"
  using assms
proof (induction cfg ticks ms rule: processorRuns.induct)
  case (1 cfg ms)
  then show ?case by simp
next
  case (2 cfg now send ticks ms)
  let ?ms' = "processEmailQueue cfg now send ms"
  have d': "distinct (map q_id (emailQueue ?ms'))"
    by (simp add: processEmailQueue_ids "2.prems"(1))
  have r': "r \<in> set (emailQueue ?ms')"
    using "2.prems" by (rule processEmailQueue_exhausted(1))
  from processEmailQueue_exhausted(2) [OF "2.prems", of now send]
  obtain new1 where n1: "sendLog ?ms' = sendLog ms @ new1"
    and i1: "\<forall>e \<in> set new1. q_id e \<noteq> q_id r"
    by blast
  from "2.IH" [OF d' r' "2.prems"(3,4)]
  obtain new2 where k: "r \<in> set (emailQueue (processorRuns cfg ticks ?ms'))"
    and n2: "sendLog (processorRuns cfg ticks ?ms') = sendLog ?ms' @ new2"
    and i2: "\<forall>e \<in> set new2. q_id e \<noteq> q_id r"
    by blast
  have "sendLog (processorRuns cfg ((now, send) # ticks) ms) = sendLog ms @ (new1 @ new2)"
    by (simp add: n1 n2)
  moreover from i1 i2 have "\<forall>e \<in> set (new1 @ new2). q_id e \<noteq> q_id r" by auto
  ultimately have "\<exists>new. sendLog (processorRuns cfg ((now, send) # ticks) ms) = sendLog ms @ new \<and>
      (\<forall>e \<in> set new. q_id e \<noteq> q_id r)"
    by blast
  with k show ?case by simp
qed

lemma processEmailQueue_retry_due:
  assumes "e \<in> set (drop (length (sendLog ms)) (sendLog (processEmailQueue cfg now send ms)))"
    and "q_status e = ''failed''"
  shows "retryDue cfg now e"
proof -
  let ?ms1 = "fold (processEmail now send) (pendingBatch cfg ms) ms"
  from assms(1) have "e \<in> set (pendingBatch cfg ms) \<or> e \<in> set (retryBatch cfg now ?ms1)"
    by (simp add: processEmailQueue_log)
  then show ?thesis
  proof
    assume "e \<in> set (pendingBatch cfg ms)"
    then have "q_status e = ''pending''" by (simp add: pendingBatch_props)
    with assms(2) show ?thesis by simp
  next
    assume "e \<in> set (retryBatch cfg now ?ms1)"
    then show ?thesis by (simp add: retryBatch_props)
  qed
qed


text \<open>
  C8: in a run of the queue processor a row read with status \<^verbatim>\<open>failed\<close> is handed to the
  transport only if its attempts are below \<^verbatim>\<open>maxAttempts\<close> and the time since its
  \<^verbatim>\<open>lastAttempt\<close> is at least the retry delay. A row with status \<^verbatim>\<open>failed\<close> whose attempts
  have reached \<^verbatim>\<open>maxAttempts\<close>, in a queue with unique ids, is still in the queue, unchanged,
  after any number of runs, whatever the times and the transport; none of these runs hands
  a row with its id to the transport, and none removes a row from the queue.
\<close>

theorem exhausted_email_stays_failed:
  "(\<forall>e \<in> set (drop (length (sendLog ms)) (sendLog (processEmailQueue cfg now send ms))).
      q_status e = ''failed'' \<longrightarrow>
        q_attempts e < maxAttempts (cfg_retry cfg) \<and>
        (\<forall>t. q_lastAttempt e = Some t \<longrightarrow> delay (cfg_retry cfg) \<le> now - t)) \<and>
   (distinct (map q_id (emailQueue ms)) \<and> r \<in> set (emailQueue ms) \<and>
    q_status r = ''failed'' \<and> maxAttempts (cfg_retry cfg) \<le> q_attempts r \<longrightarrow>
      r \<in> set (emailQueue (processorRuns cfg ticks ms)) \<and>
      (\<forall>e \<in> set (drop (length (sendLog ms)) (sendLog (processorRuns cfg ticks ms))).
         q_id e \<noteq> q_id r) \<and>
      map q_id (emailQueue (processorRuns cfg ticks ms)) = map q_id (emailQueue ms))"
proof -
  have A: "\<forall>e \<in> set (drop (length (sendLog ms)) (sendLog (processEmailQueue cfg now send ms))).
      q_status e = ''failed'' \<longrightarrow>
        q_attempts e < maxAttempts (cfg_retry cfg) \<and>
        (\<forall>t. q_lastAttempt e = Some t \<longrightarrow> delay (cfg_retry cfg) \<le> now - t)"
  proof (intro ballI impI)
    fix e
    assume "e \<in> set (drop (length (sendLog ms)) (sendLog (processEmailQueue cfg now send ms)))"
      and "q_status e = ''failed''"
    then have "retryDue cfg now e" by (rule processEmailQueue_retry_due)
    then show "q_attempts e < maxAttempts (cfg_retry cfg) \<and>
        (\<forall>t. q_lastAttempt e = Some t \<longrightarrow> delay (cfg_retry cfg) \<le> now - t)"
      by (auto simp: retryDue_def)
  qed
  have B: "r \<in> set (emailQueue (processorRuns cfg ticks ms)) \<and>
      (\<forall>e \<in> set (drop (length (sendLog ms)) (sendLog (processorRuns cfg ticks ms))).
         q_id e \<noteq> q_id r) \<and>
      map q_id (emailQueue (processorRuns cfg ticks ms)) = map q_id (emailQueue ms)"
    if h: "distinct (map q_id (emailQueue ms)) \<and> r \<in> set (emailQueue ms) \<and>
      q_status r = ''failed'' \<and> maxAttempts (cfg_retry cfg) \<le> q_attempts r"
  proof -
    from h processorRuns_exhausted [of ms r cfg ticks]
    obtain new where k: "r \<in> set (emailQueue (processorRuns cfg ticks ms))"
      and n: "sendLog (processorRuns cfg ticks ms) = sendLog ms @ new"
      and i: "\<forall>e \<in> set new. q_id e \<noteq> q_id r"
      by blast
    from n have "drop (length (sendLog ms)) (sendLog (processorRuns cfg ticks ms)) = new"
      by simp
    with k i show ?thesis by (simp add: processorRuns_ids)
  qed
  from A B show ?thesis by blast
qed

lemma retryState_run:
  "processEmailQueue defaultEmailConfig 300000 failingTransport retryState =
     \<lparr> emailQueue =
         [retryRow\<lparr> q_attempts := 2, q_lastAttempt := Some 300000 \<rparr>, exhaustedRow],
       sendLog = [retryRow] \<rparr>"
  by (simp add: processEmailQueue_def processEmail_def retryEmail_def retryDue_def Let_def
      defaultEmailConfig_def retryState_def retryRow_def exhaustedRow_def failingTransport_def)

theorem exhausted_email_stays_failed_witness:
  "sendLog (processEmailQueue defaultEmailConfig 300000 failingTransport retryState) = [retryRow] \<and>
   q_attempts retryRow < maxAttempts (cfg_retry defaultEmailConfig) \<and>
   exhaustedRow \<in> set (emailQueue (processorRuns defaultEmailConfig
     [(300000, failingTransport), (600000, failingTransport)] retryState)) \<and>
   map q_id (emailQueue (processorRuns defaultEmailConfig
     [(300000, failingTransport), (600000, failingTransport)] retryState)) = [1, 2]"
proof -
  have h: "distinct (map q_id (emailQueue retryState)) \<and> exhaustedRow \<in> set (emailQueue retryState) \<and>
      q_status exhaustedRow = ''failed'' \<and>
      maxAttempts (cfg_retry defaultEmailConfig) \<le> q_attempts exhaustedRow"
    by (simp add: retryState_def retryRow_def exhaustedRow_def defaultEmailConfig_def)
  have l: "sendLog retryState = []" "q_status retryRow = ''failed''"
    "map q_id (emailQueue retryState) = [1, 2]"
    by (simp_all add: retryState_def retryRow_def exhaustedRow_def)
  from exhausted_email_stays_failed [of retryState defaultEmailConfig 300000 failingTransport
      exhaustedRow "[(300000, failingTransport), (600000, failingTransport)]"] h
  show ?thesis by (simp add: retryState_run l)
qed

end
